theory Spec2Isabelle
  imports Complex_Main
begin

chapter \<open>Model of the finance tracker\<close>

text \<open>
  The repository has a browser client (\<open>webapp/js/app.js\<close> with the classes \<open>FinanceApp\<close> and
  \<open>API\<close>, \<open>webapp/js/telegram.js\<close> with \<open>TelegramWebApp\<close>) and a PostgreSQL schema
  (\<open>database/schema.sql\<close>). The first part of this theory models the functions and the
  schema; the second part states and proves their properties.
\<close>

section \<open>JavaScript values shared by the client code\<close>

text \<open>
  JavaScript strings are modelled as \<^typ>\<open>string\<close>; a non-ASCII literal of the source is
  written as the bytes of its UTF-8 encoding. JavaScript numbers that the aggregation code
  obtains from \<open>parseFloat(transaction.amount)\<close> are modelled as \<^typ>\<open>real\<close>: the amounts
  are the finite decimal amounts the REST API delivers, and the rounding of binary floating
  point is not part of the model.
\<close>

definition dash :: string where
  \<comment> \<open>the placeholder of \<open>stats.topCategory\<close>, an em dash (U+2014)\<close>
  "dash = [CHR 0xE2, CHR 0x80, CHR 0x94]"

definition prochee :: string where
  \<comment> \<open>the literal \<open>'Prochee'\<close> in Cyrillic (U+041F U+0440 U+043E U+0447 U+0435 U+0435),
      the category used for a transaction without a category name\<close>
  "prochee = [CHR 0xD0, CHR 0x9F, CHR 0xD1, CHR 0x80, CHR 0xD0, CHR 0xBE,
              CHR 0xD1, CHR 0x87, CHR 0xD0, CHR 0xB5, CHR 0xD0, CHR 0xB5]"

subsection \<open>Plain objects used as dictionaries\<close>

text \<open>
  \<open>const categoryTotals = {}\<close> is an object whose own properties are created in the order
  of first assignment; it is modelled as an association list in creation order.
  \<open>Object.keys\<close> and \<open>Object.entries\<close> enumerate the own string keys as ECMAScript's
  OrdinaryOwnPropertyKeys does: first the keys that are array indices (canonical decimal
  numerals below \<open>2^32 - 1\<close>) in ascending numeric order, then all other keys in creation
  order.

  The object inherits from \<open>Object.prototype\<close>. Reading a key that is not an own property
  finds the inherited property of that name, if there is one: a function for eleven names,
  and for \<open>__proto__\<close> the accessor that returns \<open>Object.prototype\<close> itself. Adding a number
  to a function or an object concatenates strings. Such a string is kept symbolically, as the
  name of the inherited property it started from and the numbers appended to it; it is never
  empty and never a numeral, so it is truthy and converts to \<open>NaN\<close>. Writing a key creates or
  overwrites an own property, except for \<open>__proto__\<close>, whose setter ignores a value that is
  not an object.
\<close>

type_synonym 'v obj = "(string \<times> 'v) list"

datatype js_value =
    Undefined
  | Number real
  | Text string "real list"
  | Function string
  | ObjectPrototype

definition object_prototype_functions :: "string list" where
  \<comment> \<open>the function-valued properties of \<open>Object.prototype\<close>\<close>
  "object_prototype_functions =
     [''constructor'', ''__defineGetter__'', ''__defineSetter__'', ''hasOwnProperty'',
      ''__lookupGetter__'', ''__lookupSetter__'', ''isPrototypeOf'', ''propertyIsEnumerable'',
      ''toString'', ''valueOf'', ''toLocaleString'']"


definition is_digit :: "char \<Rightarrow> bool" where
  "is_digit c \<longleftrightarrow> c \<in> set ''0123456789''"

definition digit_value :: "char \<Rightarrow> nat" where
  "digit_value c = of_char c - 48"

definition decimal_value :: "string \<Rightarrow> nat" where
  "decimal_value s = foldl (\<lambda>n c. 10 * n + digit_value c) 0 s"

definition is_array_index :: "string \<Rightarrow> bool" where
  "is_array_index s \<longleftrightarrow>
     s \<noteq> [] \<and> list_all is_digit s \<and> (s = ''0'' \<or> hd s \<noteq> CHR ''0'') \<and>
     decimal_value s < 2 ^ 32 - 1"

definition own_keys :: "'v obj \<Rightarrow> string list" where
  "own_keys kvs =
     sort_key decimal_value (filter is_array_index (map fst kvs)) @
     filter (\<lambda>k. \<not> is_array_index k) (map fst kvs)"


definition get :: "js_value obj \<Rightarrow> string \<Rightarrow> js_value" where
  \<comment> \<open>\<open>o[k]\<close>: the own property, or else the one inherited from \<open>Object.prototype\<close>\<close>
  "get kvs k =
     (case map_of kvs k of
        Some v \<Rightarrow> v
      | None \<Rightarrow>
          if k = ''__proto__'' then ObjectPrototype
          else if k \<in> set object_prototype_functions then Function k
          else Undefined)"

fun assign :: "string \<Rightarrow> 'v \<Rightarrow> 'v obj \<Rightarrow> 'v obj" where
  \<comment> \<open>overwrite an own property in place, or create it last\<close>
  "assign k v [] = [(k, v)]"
| "assign k v ((k', v') # kvs) =
     (if k' = k then (k', v) # kvs else (k', v') # assign k v kvs)"

definition put :: "string \<Rightarrow> js_value \<Rightarrow> js_value obj \<Rightarrow> js_value obj" where
  \<comment> \<open>\<open>o[k] = v\<close> for a number or a string \<open>v\<close>\<close>
  "put k v kvs = (if k = ''__proto__'' then kvs else assign k v kvs)"

definition truthy :: "js_value \<Rightarrow> bool" where
  "truthy v \<longleftrightarrow> (case v of Undefined \<Rightarrow> False | Number r \<Rightarrow> r \<noteq> 0 | _ \<Rightarrow> True)"

definition or_zero :: "js_value \<Rightarrow> js_value" where
  \<comment> \<open>\<open>v || 0\<close>\<close>
  "or_zero v = (if truthy v then v else Number 0)"

definition plus_number :: "js_value \<Rightarrow> real \<Rightarrow> js_value" where
  \<comment> \<open>\<open>v + amount\<close> for a number \<open>amount\<close>: addition of numbers, and concatenation when
      \<open>v\<close> is a string or converts to one; \<open>undefined + amount\<close> is \<open>NaN\<close> and does not
      occur after \<open>|| 0\<close>\<close>
  "plus_number v a =
     (case v of
        Number r \<Rightarrow> Number (r + a)
      | Text n as \<Rightarrow> Text n (as @ [a])
      | Function n \<Rightarrow> Text n [a]
      | ObjectPrototype \<Rightarrow> Text ''__proto__'' [a]
      | Undefined \<Rightarrow> Undefined)"

definition accumulate :: "string \<Rightarrow> real \<Rightarrow> js_value obj \<Rightarrow> js_value obj" where
  \<comment> \<open>\<open>o[k] = (o[k] || 0) + amount\<close>\<close>
  "accumulate k a kvs = put k (plus_number (or_zero (get kvs k)) a) kvs"



section \<open>FinanceApp: statistics over the loaded transactions\<close>

text \<open>
  The fields of a transaction object that the aggregation reads. \<open>amount\<close> is the number
  \<open>parseFloat(transaction.amount)\<close>; \<open>category_name\<close> is \<open>None\<close> when the property is
  \<open>undefined\<close> or \<open>null\<close>.
\<close>

record transaction =
  tx_type :: string
  amount :: real
  category_name :: "string option"

record stats =
  totalIncome :: real
  totalExpense :: real
  balance :: real
  count :: nat
  avgExpense :: real
  topCategory :: string

definition name_or_prochee :: "transaction \<Rightarrow> string" where
  \<comment> \<open>\<open>transaction.category_name || 'Prochee'\<close>: the empty string is falsy\<close>
  "name_or_prochee t =
     (case category_name t of
        None \<Rightarrow> prochee
      | Some n \<Rightarrow> if n \<noteq> [] then n else prochee)"

text \<open>
  The body of \<open>this.transactions.forEach(...)\<close> in \<open>calculateStats\<close>, on the three things it
  mutates: \<open>stats.totalIncome\<close>, \<open>stats.totalExpense\<close> and \<open>categoryTotals\<close>.
\<close>

definition stats_step ::
  "real \<times> real \<times> js_value obj \<Rightarrow> transaction \<Rightarrow> real \<times> real \<times> js_value obj" where
  "stats_step acc t =
     (case acc of (income, expense, categoryTotals) \<Rightarrow>
        if tx_type t = ''income'' then (income + amount t, expense, categoryTotals)
        else (income, expense + amount t,
              accumulate (name_or_prochee t) (amount t) categoryTotals))"

text \<open>
  The body of \<open>Object.keys(categoryTotals).forEach(...)\<close>, on \<open>maxAmount\<close> and
  \<open>stats.topCategory\<close>.
\<close>

definition top_step :: "js_value obj \<Rightarrow> real \<times> string \<Rightarrow> string \<Rightarrow> real \<times> string" where
  \<comment> \<open>\<open>categoryTotals[category] > maxAmount\<close> is false for a total that is a string, which
      converts to \<open>NaN\<close>\<close>
  "top_step categoryTotals acc category =
     (case acc of (maxAmount, topCat) \<Rightarrow>
        (case get categoryTotals category of
           Number v \<Rightarrow> if v > maxAmount then (v, category) else (maxAmount, topCat)
         | _ \<Rightarrow> (maxAmount, topCat)))"

definition calculateStats :: "transaction list \<Rightarrow> stats" where
  "calculateStats transactions =
     (case foldl stats_step (0, 0, []) transactions of
        (income, expense, categoryTotals) \<Rightarrow>
          let expenseCount = length (filter (\<lambda>t. tx_type t = ''expense'') transactions) in
          \<lparr> totalIncome = income,
            totalExpense = expense,
            balance = income - expense,
            count = length transactions,
            avgExpense = (if expenseCount > 0 then expense / real expenseCount else 0),
            topCategory = snd (foldl (top_step categoryTotals) (0, dash) (own_keys categoryTotals)) \<rparr>)"

subsection \<open>What the statistics are compared with\<close>

text \<open>
  The groups of the specification: a transaction without a category name, which is one whose
  \<open>category_name\<close> is missing or empty, belongs to the group \<open>'Prochee'\<close>, and every other
  transaction to the group of its name.
\<close>

definition has_category_name :: "transaction \<Rightarrow> bool" where
  "has_category_name t \<longleftrightarrow> category_name t \<noteq> None \<and> category_name t \<noteq> Some []"

definition group_of :: "transaction \<Rightarrow> string" where
  "group_of t = (if has_category_name t then the (category_name t) else prochee)"

definition non_income :: "transaction list \<Rightarrow> transaction list" where
  \<comment> \<open>the transactions that \<open>calculateStats\<close> counts as expenses: all but the income\<close>
  "non_income ts = filter (\<lambda>t. tx_type t \<noteq> ''income'') ts"

definition categories_of :: "transaction list \<Rightarrow> string set" where
  \<comment> \<open>the groups of those transactions\<close>
  "categories_of ts = set (map group_of (non_income ts))"

definition category_sum :: "transaction list \<Rightarrow> string \<Rightarrow> real" where
  \<comment> \<open>the sum of the amounts of those transactions in one group\<close>
  "category_sum ts c = sum_list (map amount (filter (\<lambda>t. group_of t = c) (non_income ts)))"

definition stated_topCategory :: "transaction list \<Rightarrow> string \<Rightarrow> bool" where
  \<comment> \<open>the specification's words for \<open>topCategory\<close>: ``a category name whose summed expense
      amount is maximal (the placeholder when there are no expense transactions)''\<close>
  "stated_topCategory ts c \<longleftrightarrow>
     (if non_income ts = [] then c = dash
      else c \<in> categories_of ts \<and> (\<forall>d\<in>categories_of ts. category_sum ts d \<le> category_sum ts c))"



definition zero_expense :: "transaction list" where
  \<comment> \<open>one expense whose amount parses to 0\<close>
  "zero_expense = [\<lparr>tx_type = ''expense'', amount = 0, category_name = Some ''Food''\<rparr>]"


section \<open>FinanceApp: the expense chart\<close>







subsection \<open>What the chart is compared with\<close>










section \<open>API: retry with exponential backoff\<close>

text \<open>
  \<open>retryRequest(requestFn, maxRetries = 3, delay = 1000)\<close>. The request function is
  effectful: \<open>requestFn i\<close> is how the promise of its call number \<open>i\<close> (counted from 0)
  settles, and every call is assumed to settle. The effects of \<open>retryRequest\<close> are the calls
  of \<open>requestFn\<close> and the timers it awaits, recorded in order; the \<open>console.log\<close> line is
  left out. \<open>maxRetries\<close> is an integer, \<open>delay\<close> a number of milliseconds.
\<close>

datatype ('e, 'a) settled = Fulfilled 'a | Rejected 'e

datatype event = Invoke nat | Sleep real

datatype ('e, 'a) completion = Returned 'a | Thrown 'e | ReturnedUndefined

function retry_loop ::
  "(nat \<Rightarrow> ('e, 'a) settled) \<Rightarrow> int \<Rightarrow> nat \<Rightarrow> real \<Rightarrow> event list \<times> ('e, 'a) completion" where
  "retry_loop requestFn maxRetries i delay =
     (if int i < maxRetries then
        (case requestFn i of
           Fulfilled v \<Rightarrow> ([Invoke i], Returned v)
         | Rejected error \<Rightarrow>
             if int i = maxRetries - 1 then ([Invoke i], Thrown error)
             else (case retry_loop requestFn maxRetries (i + 1) (delay * 2) of
                     (evs, r) \<Rightarrow> (Invoke i # Sleep delay # evs, r)))
      else ([], ReturnedUndefined))"
  by pat_completeness auto
termination
  by (relation "measure (\<lambda>(requestFn, maxRetries, i, delay). nat (maxRetries - int i))") auto

definition retryRequest ::
  "(nat \<Rightarrow> ('e, 'a) settled) \<Rightarrow> int \<Rightarrow> real \<Rightarrow> event list \<times> ('e, 'a) completion" where
  "retryRequest requestFn maxRetries delay = retry_loop requestFn maxRetries 0 delay"

definition attempts :: "real \<Rightarrow> nat \<Rightarrow> nat \<Rightarrow> event list" where
  \<comment> \<open>attempts \<open>i, ..., k\<close>, each but the last followed by its wait; the wait after
      attempt \<open>i\<close> is \<open>delay\<close>, and every later one is twice the one before\<close>
  "attempts delay i k =
     concat (map (\<lambda>j. [Invoke j, Sleep (delay * 2 ^ (j - i))]) [i..<k]) @ [Invoke k]"

definition invocations :: "event list \<Rightarrow> nat" where
  "invocations evs = length (filter (\<lambda>e. case e of Invoke _ \<Rightarrow> True | Sleep _ \<Rightarrow> False) evs)"

definition flaky :: "nat \<Rightarrow> (string, nat) settled" where
  \<comment> \<open>a request that fails twice and then succeeds\<close>
  "flaky i = (if i < 2 then Rejected ''timeout'' else Fulfilled 42)"

definition down :: "nat \<Rightarrow> (nat, unit) settled" where
  \<comment> \<open>a request that always fails, with the number of the call as its error\<close>
  "down i = Rejected i"

section \<open>The database schema\<close>

text \<open>
  The statements of \<open>database/schema.sql\<close>, in the order of the file. A column is its name, its
  type and its constraints; an index is its name, its table and its key columns.
\<close>

datatype sql_type =
  SERIAL | BIGINT | INTEGER | VARCHAR nat | TEXT | DECIMAL nat nat | DATE | TIMESTAMP | BOOLEAN

datatype referential_action = CASCADE | SET_NULL

datatype default_expr = NOW | TRUE

datatype column_constraint =
    PRIMARY_KEY
  | UNIQUE
  | NOT_NULL
  | CHECK_IN "string list"
  | CHECK_GREATER_THAN int
  | REFERENCES string string referential_action
  | DEFAULT default_expr

record column =
  column_name :: string
  column_type :: sql_type
  column_constraints :: "column_constraint list"

datatype direction = ASC | DESC

datatype ddl =
    CREATE_EXTENSION string
  | CREATE_TABLE string "column list"
  | CREATE_INDEX string string "(string \<times> direction) list"
  | CREATE_FUNCTION string
  | CREATE_TRIGGER_BEFORE_UPDATE string string string
  | COMMENT_ON_TABLE string string
  | COMMENT_ON_COLUMN string string string

definition col :: "string \<Rightarrow> sql_type \<Rightarrow> column_constraint list \<Rightarrow> column" where
  "col n t cs = \<lparr> column_name = n, column_type = t, column_constraints = cs \<rparr>"

definition schema_sql :: "ddl list" where
  "schema_sql =
    [CREATE_EXTENSION ''uuid-ossp'',
     CREATE_TABLE ''users''
       [col ''id'' SERIAL [PRIMARY_KEY],
        col ''telegram_user_id'' BIGINT [UNIQUE, NOT_NULL],
        col ''username'' (VARCHAR 255) [],
        col ''first_name'' (VARCHAR 255) [],
        col ''last_name'' (VARCHAR 255) [],
        col ''created_at'' TIMESTAMP [DEFAULT NOW],
        col ''updated_at'' TIMESTAMP [DEFAULT NOW]],
     CREATE_INDEX ''idx_users_telegram_id'' ''users'' [(''telegram_user_id'', ASC)],
     CREATE_INDEX ''idx_users_created_at'' ''users'' [(''created_at'', ASC)],
     CREATE_TABLE ''categories''
       [col ''id'' SERIAL [PRIMARY_KEY],
        col ''name'' (VARCHAR 100) [NOT_NULL, UNIQUE],
        col ''icon'' (VARCHAR 10) [NOT_NULL],
        col ''type'' (VARCHAR 20) [NOT_NULL, CHECK_IN [''income'', ''expense'']],
        col ''is_active'' BOOLEAN [DEFAULT TRUE]],
     CREATE_INDEX ''idx_categories_type'' ''categories'' [(''type'', ASC)],
     CREATE_INDEX ''idx_categories_active'' ''categories'' [(''is_active'', ASC)],
     CREATE_TABLE ''transactions''
       [col ''id'' SERIAL [PRIMARY_KEY],
        col ''user_id'' INTEGER [NOT_NULL, REFERENCES ''users'' ''id'' CASCADE],
        col ''type'' (VARCHAR 20) [NOT_NULL, CHECK_IN [''income'', ''expense'']],
        col ''amount'' (DECIMAL 12 2) [NOT_NULL, CHECK_GREATER_THAN 0],
        col ''category_id'' INTEGER [REFERENCES ''categories'' ''id'' SET_NULL],
        col ''description'' TEXT [],
        col ''transaction_date'' DATE [NOT_NULL],
        col ''created_at'' TIMESTAMP [DEFAULT NOW],
        col ''updated_at'' TIMESTAMP [DEFAULT NOW]],
     CREATE_INDEX ''idx_transactions_user_id'' ''transactions'' [(''user_id'', ASC)],
     CREATE_INDEX ''idx_transactions_user_date'' ''transactions''
       [(''user_id'', ASC), (''transaction_date'', DESC)],
     CREATE_INDEX ''idx_transactions_user_category'' ''transactions''
       [(''user_id'', ASC), (''category_id'', ASC)],
     CREATE_INDEX ''idx_transactions_type'' ''transactions'' [(''type'', ASC)],
     CREATE_INDEX ''idx_transactions_date'' ''transactions'' [(''transaction_date'', ASC)],
     CREATE_INDEX ''idx_transactions_created_at'' ''transactions'' [(''created_at'', ASC)],
     CREATE_INDEX ''idx_transactions_user_type_date'' ''transactions''
       [(''user_id'', ASC), (''type'', ASC), (''transaction_date'', DESC)],
     CREATE_FUNCTION ''update_updated_at_column'',
     CREATE_TRIGGER_BEFORE_UPDATE ''update_users_updated_at'' ''users'' ''update_updated_at_column'',
     CREATE_TRIGGER_BEFORE_UPDATE ''update_transactions_updated_at'' ''transactions''
       ''update_updated_at_column'',
     COMMENT_ON_TABLE ''users'' ''Registered users from Telegram'',
     COMMENT_ON_TABLE ''categories'' ''Transaction categories (income/expense)'',
     COMMENT_ON_TABLE ''transactions'' ''User financial transactions'',
     COMMENT_ON_COLUMN ''transactions'' ''amount''
       ''Transaction amount in rubles (always positive)'',
     COMMENT_ON_COLUMN ''transactions'' ''type'' ''Transaction type: income or expense'',
     COMMENT_ON_COLUMN ''transactions'' ''transaction_date'' ''Date when transaction occurred'']"

definition tables :: "ddl list \<Rightarrow> (string \<times> column list) list" where
  \<comment> \<open>the tables a script creates, with their columns\<close>
  "tables script = concat (map (\<lambda>s. case s of CREATE_TABLE n cs \<Rightarrow> [(n, cs)] | _ \<Rightarrow> []) script)"

definition indexes :: "ddl list \<Rightarrow> (string \<times> string) list" where
  \<comment> \<open>the secondary indexes a script creates, each with its table\<close>
  "indexes script = concat (map (\<lambda>s. case s of CREATE_INDEX i t ks \<Rightarrow> [(i, t)] | _ \<Rightarrow> []) script)"

definition primary_key :: "column list \<Rightarrow> (string \<times> sql_type) list" where
  \<comment> \<open>the columns declared \<open>PRIMARY KEY\<close>, with their types\<close>
  "primary_key cs =
     map (\<lambda>c. (column_name c, column_type c)) (filter (\<lambda>c. PRIMARY_KEY \<in> set (column_constraints c)) cs)"

section \<open>Rows, constraints and triggers of the three tables\<close>

text \<open>
  A row has one field per column of its \<open>CREATE TABLE\<close>; \<open>None\<close> is SQL's \<open>NULL\<close>. Values
  are of the column's type: an \<open>INTEGER\<close>, \<open>SERIAL\<close> or \<open>BIGINT\<close> is an integer, a
  \<open>DECIMAL(12, 2)\<close> is its number of hundredths, a \<open>DATE\<close> is a day number and a \<open>TIMESTAMP\<close>
  an instant. The column \<open>updated_at\<close>, which \<open>users\<close> and \<open>transactions\<close> share, comes first so
  that the one trigger function serves both tables.
\<close>

type_synonym instant = nat

record row_with_updated_at =
  updated_at :: "instant option"

record users_row = row_with_updated_at +
  u_id :: "int option"
  u_telegram_user_id :: "int option"
  u_username :: "string option"
  u_first_name :: "string option"
  u_last_name :: "string option"
  u_created_at :: "instant option"

record categories_row =
  c_id :: "int option"
  c_name :: "string option"
  c_icon :: "string option"
  c_type :: "string option"
  c_is_active :: "bool option"

record transactions_row = row_with_updated_at +
  t_id :: "int option"
  t_user_id :: "int option"
  t_type :: "string option"
  t_amount :: "int option"
  t_category_id :: "int option"
  t_description :: "string option"
  t_transaction_date :: "int option"
  t_created_at :: "instant option"

record database =
  users :: "users_row list"
  categories :: "categories_row list"
  transactions :: "transactions_row list"

definition empty_database :: database where
  "empty_database = \<lparr> users = [], categories = [], transactions = [] \<rparr>"

subsection \<open>The trigger function\<close>

definition update_updated_at_column ::
  "instant \<Rightarrow> 'a row_with_updated_at_scheme \<Rightarrow> 'a row_with_updated_at_scheme" where
  \<comment> \<open>\<open>NEW.updated_at = NOW(); RETURN NEW;\<close> with \<open>NOW()\<close> as the first argument\<close>
  "update_updated_at_column now NEW = NEW\<lparr> updated_at := Some now \<rparr>"

definition update_users_updated_at :: "instant \<Rightarrow> users_row \<Rightarrow> users_row" where
  \<comment> \<open>\<open>BEFORE UPDATE ON users FOR EACH ROW\<close>\<close>
  "update_users_updated_at now NEW = update_updated_at_column now NEW"

definition update_transactions_updated_at :: "instant \<Rightarrow> transactions_row \<Rightarrow> transactions_row" where
  \<comment> \<open>\<open>BEFORE UPDATE ON transactions FOR EACH ROW\<close>\<close>
  "update_transactions_updated_at now NEW = update_updated_at_column now NEW"

subsection \<open>Constraints\<close>

datatype violation =
    not_null_violation string
  | check_violation string
  | numeric_value_out_of_range string
  | unique_violation string
  | foreign_key_violation string

definition first_violation :: "('r \<Rightarrow> violation option) \<Rightarrow> 'r list \<Rightarrow> violation option" where
  "first_violation check rs = (case List.map_filter check rs of [] \<Rightarrow> None | v # _ \<Rightarrow> Some v)"

definition users_row_violation :: "users_row \<Rightarrow> violation option" where
  \<comment> \<open>\<open>id SERIAL PRIMARY KEY\<close> and \<open>telegram_user_id BIGINT UNIQUE NOT NULL\<close>, the part of one row\<close>
  "users_row_violation r =
     (if u_id r = None then Some (not_null_violation ''id'')
      else if u_telegram_user_id r = None then Some (not_null_violation ''telegram_user_id'')
      else None)"

definition users_key_violation :: "users_row list \<Rightarrow> violation option" where
  "users_key_violation rs =
     (if \<not> distinct (map u_id rs) then Some (unique_violation ''users_pkey'')
      else if \<not> distinct (map u_telegram_user_id rs)
        then Some (unique_violation ''users_telegram_user_id_key'')
      else None)"

definition categories_row_violation :: "categories_row \<Rightarrow> violation option" where
  "categories_row_violation r =
     (if c_id r = None then Some (not_null_violation ''id'')
      else if c_name r = None then Some (not_null_violation ''name'')
      else if c_icon r = None then Some (not_null_violation ''icon'')
      else if c_type r = None then Some (not_null_violation ''type'')
      else if c_type r \<notin> {Some ''income'', Some ''expense''}
        then Some (check_violation ''categories_type_check'')
      else None)"

definition categories_key_violation :: "categories_row list \<Rightarrow> violation option" where
  "categories_key_violation rs =
     (if \<not> distinct (map c_id rs) then Some (unique_violation ''categories_pkey'')
      else if \<not> distinct (map c_name rs) then Some (unique_violation ''categories_name_key'')
      else None)"

definition transactions_row_violation :: "transactions_row \<Rightarrow> violation option" where
  \<comment> \<open>the \<open>NOT NULL\<close> and \<open>CHECK\<close> constraints of \<open>transactions\<close>, and the precision of
      \<open>DECIMAL(12, 2)\<close>: fewer than \<open>10^12\<close> hundredths in absolute value\<close>
  "transactions_row_violation r =
     (if t_id r = None then Some (not_null_violation ''id'')
      else if t_user_id r = None then Some (not_null_violation ''user_id'')
      else if t_type r = None then Some (not_null_violation ''type'')
      else if t_amount r = None then Some (not_null_violation ''amount'')
      else if t_transaction_date r = None then Some (not_null_violation ''transaction_date'')
      else if \<not> \<bar>the (t_amount r)\<bar> < 10 ^ 12 then Some (numeric_value_out_of_range ''amount'')
      else if t_type r \<notin> {Some ''income'', Some ''expense''}
        then Some (check_violation ''transactions_type_check'')
      else if \<not> 0 < the (t_amount r) then Some (check_violation ''transactions_amount_check'')
      else None)"

definition transactions_key_violation :: "transactions_row list \<Rightarrow> violation option" where
  "transactions_key_violation rs =
     (if \<not> distinct (map t_id rs) then Some (unique_violation ''transactions_pkey'') else None)"

definition transactions_reference_violation :: "database \<Rightarrow> transactions_row \<Rightarrow> violation option" where
  \<comment> \<open>\<open>user_id ... REFERENCES users(id)\<close> and \<open>category_id ... REFERENCES categories(id)\<close>;
      a \<open>NULL\<close> reference is not checked\<close>
  "transactions_reference_violation db r =
     (if t_user_id r \<noteq> None \<and> t_user_id r \<notin> set (map u_id (users db))
        then Some (foreign_key_violation ''transactions_user_id_fkey'')
      else if t_category_id r \<noteq> None \<and> t_category_id r \<notin> set (map c_id (categories db))
        then Some (foreign_key_violation ''transactions_category_id_fkey'')
      else None)"

definition first_of :: "violation option list \<Rightarrow> violation option" where
  \<comment> \<open>the first violation found, in the order the checks are made\<close>
  "first_of vs = (case List.map_filter (\<lambda>v. v) vs of [] \<Rightarrow> None | v # _ \<Rightarrow> Some v)"

subsection \<open>Statements\<close>

text \<open>
  The statements that change the three tables, each on the row with a given primary key; the
  \<open>SET\<close> clause of an \<open>UPDATE\<close> is the function from the old row to the new one. A statement
  that violates a constraint raises the violation and changes nothing. The row triggers run
  before the constraints of the new row are checked. Deleting a user deletes the user's
  transactions (\<open>ON DELETE CASCADE\<close>); deleting a category sets \<open>category_id\<close> to \<open>NULL\<close> in
  the transactions of that category (\<open>ON DELETE SET NULL\<close>), which is an update of those rows
  and runs their trigger. A primary key that is still referenced cannot be changed.
\<close>

datatype dml =
    INSERT_users users_row
  | UPDATE_users int "users_row \<Rightarrow> users_row"
  | DELETE_users int
  | INSERT_categories categories_row
  | UPDATE_categories int "categories_row \<Rightarrow> categories_row"
  | DELETE_categories int
  | INSERT_transactions transactions_row
  | UPDATE_transactions int "transactions_row \<Rightarrow> transactions_row"
  | DELETE_transactions int

definition changed :: "('r \<Rightarrow> bool) \<Rightarrow> ('r \<Rightarrow> 'r) \<Rightarrow> 'r list \<Rightarrow> 'r list" where
  \<comment> \<open>the new versions of the rows that an \<open>UPDATE ... WHERE\<close> matches\<close>
  "changed matches new rs = map new (filter matches rs)"

definition replaced :: "('r \<Rightarrow> bool) \<Rightarrow> ('r \<Rightarrow> 'r) \<Rightarrow> 'r list \<Rightarrow> 'r list" where
  \<comment> \<open>the table after the update\<close>
  "replaced matches new rs = map (\<lambda>r. if matches r then new r else r) rs"

fun exec :: "instant \<Rightarrow> database \<Rightarrow> dml \<Rightarrow> violation + database" where
  "exec now db (INSERT_users r) =
     (case first_of [users_row_violation r, users_key_violation (users db @ [r])] of
        Some v \<Rightarrow> Inl v
      | None \<Rightarrow> Inr (db\<lparr> users := users db @ [r] \<rparr>))"
| "exec now db (UPDATE_users k set_clause) =
     (let matches = (\<lambda>r. u_id r = Some k);
          new = (\<lambda>r. update_users_updated_at now (set_clause r)) in
      case first_of
             [first_violation users_row_violation (changed matches new (users db)),
              users_key_violation (replaced matches new (users db)),
              if (\<exists>r \<in> set (users db). matches r \<and> u_id (new r) \<noteq> u_id r) \<and>
                 Some k \<in> set (map t_user_id (transactions db))
              then Some (foreign_key_violation ''transactions_user_id_fkey'') else None] of
        Some v \<Rightarrow> Inl v
      | None \<Rightarrow> Inr (db\<lparr> users := replaced matches new (users db) \<rparr>))"
| "exec now db (DELETE_users k) =
     Inr (db\<lparr> users := filter (\<lambda>r. u_id r \<noteq> Some k) (users db),
              transactions := filter (\<lambda>r. t_user_id r \<noteq> Some k) (transactions db) \<rparr>)"
| "exec now db (INSERT_categories r) =
     (case first_of [categories_row_violation r, categories_key_violation (categories db @ [r])] of
        Some v \<Rightarrow> Inl v
      | None \<Rightarrow> Inr (db\<lparr> categories := categories db @ [r] \<rparr>))"
| "exec now db (UPDATE_categories k set_clause) =
     (let matches = (\<lambda>r. c_id r = Some k) in
      case first_of
             [first_violation categories_row_violation (changed matches set_clause (categories db)),
              categories_key_violation (replaced matches set_clause (categories db)),
              if (\<exists>r \<in> set (categories db). matches r \<and> c_id (set_clause r) \<noteq> c_id r) \<and>
                 Some k \<in> set (map t_category_id (transactions db))
              then Some (foreign_key_violation ''transactions_category_id_fkey'') else None] of
        Some v \<Rightarrow> Inl v
      | None \<Rightarrow> Inr (db\<lparr> categories := replaced matches set_clause (categories db) \<rparr>))"
| "exec now db (DELETE_categories k) =
     Inr (db\<lparr> categories := filter (\<lambda>r. c_id r \<noteq> Some k) (categories db),
              transactions :=
                replaced (\<lambda>r. t_category_id r = Some k)
                  (\<lambda>r. update_transactions_updated_at now (r\<lparr> t_category_id := None \<rparr>))
                  (transactions db) \<rparr>)"
| "exec now db (INSERT_transactions r) =
     (case first_of
             [transactions_row_violation r,
              transactions_key_violation (transactions db @ [r]),
              transactions_reference_violation db r] of
        Some v \<Rightarrow> Inl v
      | None \<Rightarrow> Inr (db\<lparr> transactions := transactions db @ [r] \<rparr>))"
| "exec now db (UPDATE_transactions k set_clause) =
     (let matches = (\<lambda>r. t_id r = Some k);
          new = (\<lambda>r. update_transactions_updated_at now (set_clause r)) in
      case first_of
             [first_violation transactions_row_violation (changed matches new (transactions db)),
              transactions_key_violation (replaced matches new (transactions db)),
              first_violation (transactions_reference_violation db)
                (changed matches new (transactions db))] of
        Some v \<Rightarrow> Inl v
      | None \<Rightarrow> Inr (db\<lparr> transactions := replaced matches new (transactions db) \<rparr>))"
| "exec now db (DELETE_transactions k) =
     Inr (db\<lparr> transactions := filter (\<lambda>r. t_id r \<noteq> Some k) (transactions db) \<rparr>)"

definition run :: "database \<Rightarrow> instant \<times> dml \<Rightarrow> database" where
  \<comment> \<open>the database after a statement issued at a given instant: unchanged when it is rejected\<close>
  "run db s = (case exec (fst s) db (snd s) of Inl v \<Rightarrow> db | Inr db' \<Rightarrow> db')"

definition run_all :: "(instant \<times> dml) list \<Rightarrow> database" where
  \<comment> \<open>the database after a sequence of statements on the empty tables\<close>
  "run_all ss = foldl run empty_database ss"

definition transactions_row_invariant :: "database \<Rightarrow> transactions_row \<Rightarrow> bool" where
  "transactions_row_invariant db r \<longleftrightarrow>
     (\<exists>a. t_amount r = Some a \<and> 0 < a) \<and>
     (t_type r = Some ''income'' \<or> t_type r = Some ''expense'') \<and>
     (\<exists>k. t_user_id r = Some k \<and> (\<exists>u \<in> set (users db). u_id u = Some k)) \<and>
     t_transaction_date r \<noteq> None"

subsection \<open>The row invariant in two parts, and sample data\<close>

definition row_ok :: "transactions_row \<Rightarrow> bool" where
  \<comment> \<open>the part of the row invariant that is about the row alone\<close>
  "row_ok r \<longleftrightarrow> (\<exists>a. t_amount r = Some a \<and> 0 < a) \<and>
     (t_type r = Some ''income'' \<or> t_type r = Some ''expense'') \<and>
     t_user_id r \<noteq> None \<and> t_transaction_date r \<noteq> None"

definition rows_invariant :: "database \<Rightarrow> bool" where
  \<comment> \<open>every row of \<open>transactions\<close> satisfies the row invariant\<close>
  "rows_invariant db \<longleftrightarrow> (\<forall>r \<in> set (transactions db). transactions_row_invariant db r)"

definition alice :: users_row where
  \<comment> \<open>user 1\<close>
  "alice = \<lparr> updated_at = Some 1, u_id = Some 1, u_telegram_user_id = Some 1001,
             u_username = Some ''alice'', u_first_name = Some ''Alice'', u_last_name = None,
             u_created_at = Some 1 \<rparr>"

definition lunch_row :: transactions_row where
  \<comment> \<open>250.00 spent by user 1\<close>
  "lunch_row = \<lparr> updated_at = Some 2, t_id = Some 1, t_user_id = Some 1,
                 t_type = Some ''expense'', t_amount = Some 25000, t_category_id = None,
                 t_description = Some ''lunch'', t_transaction_date = Some 20100,
                 t_created_at = Some 2 \<rparr>"

definition free_lunch :: transactions_row where
  \<comment> \<open>a second row, of amount 0.00\<close>
  "free_lunch = lunch_row\<lparr> t_id := Some 2, t_amount := Some 0 \<rparr>"

definition one_user_one_row :: database where
  \<comment> \<open>the user and the lunch\<close>
  "one_user_one_row = \<lparr> users = [alice], categories = [], transactions = [lunch_row] \<rparr>"

definition sample_statements :: "(instant \<times> dml) list" where
  \<comment> \<open>three inserts, the last of a row of amount 0.00\<close>
  "sample_statements =
     [(1, INSERT_users alice), (2, INSERT_transactions lunch_row),
      (3, INSERT_transactions free_lunch)]"

definition refund :: "transactions_row \<Rightarrow> transactions_row" where
  \<comment> \<open>\<open>SET amount = -5.00\<close>\<close>
  "refund r = r\<lparr> t_amount := Some (- 500) \<rparr>"

definition dinner :: "transactions_row \<Rightarrow> transactions_row" where
  \<comment> \<open>\<open>SET amount = 900.00, description = 'dinner', updated_at = NULL\<close>\<close>
  "dinner r = r\<lparr> t_amount := Some 90000, t_description := Some ''dinner'', updated_at := None \<rparr>"

definition new_username :: "users_row \<Rightarrow> users_row" where
  \<comment> \<open>\<open>SET username = 'alice2'\<close>\<close>
  "new_username r = r\<lparr> u_username := Some ''alice2'' \<rparr>"

section \<open>TelegramWebApp: popups through the host bridge\<close>

text \<open>
  \<open>this.tg\<close> is the bridge object \<open>window.Telegram.WebApp\<close>, or \<open>null\<close> outside Telegram. Of
  the bridge, the adapter reads whether a method is there (\<open>this.tg?.showAlert\<close>) and calls
  it; a call returns or throws. A callback is \<open>None\<close> when the caller passed none; called, it
  returns or throws. The browser's \<open>alert\<close> and \<open>confirm\<close> are assumed not to throw;
  \<open>answer n\<close> is what the user answers to the browser confirmation number \<open>n\<close> (from 0) of
  one call of \<open>showConfirm\<close>. The run of a method is the list of its effects in order and how
  it completes.
\<close>

datatype behaviour = Returns | Throws

record bridge =
  tg_showAlert :: "behaviour option"
  tg_showConfirm :: "behaviour option"

datatype ui_event =
    BridgeShowAlert string "behaviour option"
  | BridgeShowConfirm string "behaviour option"
  | BrowserAlert string
  | BrowserConfirm string
  | CallbackCalled "bool option"
  | ConsoleError

datatype outcome = Normal | Exception

type_synonym run = "ui_event list \<times> outcome"

definition bridge_method :: "bridge option \<Rightarrow> (bridge \<Rightarrow> behaviour option) \<Rightarrow> behaviour option" where
  \<comment> \<open>\<open>this.tg?.method\<close>\<close>
  "bridge_method tg method = (case tg of None \<Rightarrow> None | Some b \<Rightarrow> method b)"

definition called :: "behaviour \<Rightarrow> outcome" where
  "called b = (case b of Returns \<Rightarrow> Normal | Throws \<Rightarrow> Exception)"

definition then_do :: "run \<Rightarrow> run \<Rightarrow> run" where
  \<comment> \<open>two statements in sequence: the second runs when the first did not throw\<close>
  "then_do first second =
     (case first of
        (evs, Exception) \<Rightarrow> (evs, Exception)
      | (evs, Normal) \<Rightarrow> (case second of (evs', r) \<Rightarrow> (evs @ evs', r)))"

definition try_catch :: "run \<Rightarrow> (ui_event list \<Rightarrow> run) \<Rightarrow> run" where
  \<comment> \<open>\<open>try { body } catch (error) { handler }\<close>; the handler sees what happened so far\<close>
  "try_catch body handler =
     (case body of
        (evs, Normal) \<Rightarrow> (evs, Normal)
      | (evs, Exception) \<Rightarrow> (case handler evs of (evs', r) \<Rightarrow> (evs @ evs', r)))"

definition call_callback :: "behaviour option \<Rightarrow> bool option \<Rightarrow> run" where
  \<comment> \<open>\<open>if (callback) callback(arg)\<close>\<close>
  "call_callback callback arg =
     (case callback of
        None \<Rightarrow> ([], Normal)
      | Some b \<Rightarrow> ([CallbackCalled arg], called b))"

definition alert_then_callback :: "string \<Rightarrow> behaviour option \<Rightarrow> run" where
  \<comment> \<open>\<open>alert(message); if (callback) callback();\<close>\<close>
  "alert_then_callback message callback =
     then_do ([BrowserAlert message], Normal) (call_callback callback None)"

definition showAlert :: "bridge option \<Rightarrow> string \<Rightarrow> behaviour option \<Rightarrow> run" where
  "showAlert tg message callback =
     try_catch
       (case bridge_method tg tg_showAlert of
          Some b \<Rightarrow> ([BridgeShowAlert message callback], called b)
        | None \<Rightarrow> alert_then_callback message callback)
       (\<lambda>_. then_do ([ConsoleError], Normal) (alert_then_callback message callback))"

definition confirms_shown :: "ui_event list \<Rightarrow> nat" where
  "confirms_shown evs =
     length (filter (\<lambda>e. case e of BrowserConfirm _ \<Rightarrow> True | _ \<Rightarrow> False) evs)"

definition confirm_then_callback :: "(nat \<Rightarrow> bool) \<Rightarrow> nat \<Rightarrow> string \<Rightarrow> behaviour option \<Rightarrow> run" where
  \<comment> \<open>\<open>const result = confirm(message); if (callback) callback(result);\<close>\<close>
  "confirm_then_callback answer n message callback =
     then_do ([BrowserConfirm message], Normal) (call_callback callback (Some (answer n)))"

definition showConfirm :: "bridge option \<Rightarrow> (nat \<Rightarrow> bool) \<Rightarrow> string \<Rightarrow> behaviour option \<Rightarrow> run" where
  "showConfirm tg answer message callback =
     try_catch
       (case bridge_method tg tg_showConfirm of
          Some b \<Rightarrow> ([BridgeShowConfirm message callback], called b)
        | None \<Rightarrow> confirm_then_callback answer 0 message callback)
       (\<lambda>evs. then_do ([ConsoleError], Normal)
                 (confirm_then_callback answer (confirms_shown evs) message callback))"

definition telegram_bridge :: bridge where
  "telegram_bridge = \<lparr>tg_showAlert = Some Returns, tg_showConfirm = Some Returns\<rparr>"

definition old_bridge :: bridge where
  \<comment> \<open>a host whose \<open>showAlert\<close> throws and which has no \<open>showConfirm\<close>\<close>
  "old_bridge = \<lparr>tg_showAlert = Some Throws, tg_showConfirm = None\<rparr>"

section \<open>API: validating a transaction before it is sent\<close>

text \<open>
  \<open>validateTransaction(data)\<close> is called with the object that \<open>saveTransaction\<close> builds from
  the form: \<open>type\<close> and \<open>date\<close> are the strings of two inputs, \<open>amount\<close> is a \<open>parseFloat\<close>
  and \<open>category_id\<close> a \<open>parseInt\<close>. A field is \<open>None\<close> when the property is missing
  (\<open>undefined\<close>) or \<open>null\<close>. A number is a finite real, an infinity or \<open>NaN\<close>.
\<close>

datatype number = NaN | NegInfinity | Finite real | PosInfinity

record transaction_data =
  data_type :: "string option"
  data_amount :: "number option"
  data_category_id :: "number option"
  data_date :: "string option"

definition truthy_number :: "number option \<Rightarrow> bool" where
  \<comment> \<open>the numbers \<open>0\<close>, \<open>-0\<close> and \<open>NaN\<close> are falsy, as are \<open>undefined\<close> and \<open>null\<close>\<close>
  "truthy_number v \<longleftrightarrow> (case v of None \<Rightarrow> False | Some n \<Rightarrow> n \<noteq> NaN \<and> n \<noteq> Finite 0)"

definition truthy_string :: "string option \<Rightarrow> bool" where
  \<comment> \<open>the empty string is falsy\<close>
  "truthy_string v \<longleftrightarrow> (case v of None \<Rightarrow> False | Some s \<Rightarrow> s \<noteq> [])"

definition le_zero :: "number option \<Rightarrow> bool" where
  \<comment> \<open>\<open>v <= 0\<close>; a comparison with \<open>NaN\<close> is false, \<open>null\<close> would convert to \<open>0\<close> and
      \<open>undefined\<close> to \<open>NaN\<close>, and both are caught by \<open>!v\<close> before\<close>
  "le_zero v \<longleftrightarrow>
     (case v of
        None \<Rightarrow> False
      | Some NaN \<Rightarrow> False
      | Some NegInfinity \<Rightarrow> True
      | Some (Finite r) \<Rightarrow> r \<le> 0
      | Some PosInfinity \<Rightarrow> False)"

definition greater_than_zero :: "number \<Rightarrow> bool" where
  "greater_than_zero n \<longleftrightarrow>
     (case n of NaN \<Rightarrow> False | NegInfinity \<Rightarrow> False | Finite r \<Rightarrow> 0 < r | PosInfinity \<Rightarrow> True)"

definition invalid_type_message :: string where
  \<comment> \<open>Nevernyi tip tranzaktsii (wrong transaction type), in Cyrillic\<close>
  "invalid_type_message =
     [CHR 0xD0, CHR 0x9D, CHR 0xD0, CHR 0xB5, CHR 0xD0, CHR 0xB2, CHR 0xD0, CHR 0xB5,
      CHR 0xD1, CHR 0x80, CHR 0xD0, CHR 0xBD, CHR 0xD1, CHR 0x8B, CHR 0xD0, CHR 0xB9,
      CHR 0x20, CHR 0xD1, CHR 0x82, CHR 0xD0, CHR 0xB8, CHR 0xD0, CHR 0xBF, CHR 0x20,
      CHR 0xD1, CHR 0x82, CHR 0xD1, CHR 0x80, CHR 0xD0, CHR 0xB0, CHR 0xD0, CHR 0xBD,
      CHR 0xD0, CHR 0xB7, CHR 0xD0, CHR 0xB0, CHR 0xD0, CHR 0xBA, CHR 0xD1, CHR 0x86,
      CHR 0xD0, CHR 0xB8, CHR 0xD0, CHR 0xB8]"

definition amount_message :: string where
  \<comment> \<open>Summa dolzhna byt bolshe nulya (the amount must be greater than zero), in Cyrillic\<close>
  "amount_message =
     [CHR 0xD0, CHR 0xA1, CHR 0xD1, CHR 0x83, CHR 0xD0, CHR 0xBC, CHR 0xD0, CHR 0xBC,
      CHR 0xD0, CHR 0xB0, CHR 0x20, CHR 0xD0, CHR 0xB4, CHR 0xD0, CHR 0xBE, CHR 0xD0,
      CHR 0xBB, CHR 0xD0, CHR 0xB6, CHR 0xD0, CHR 0xBD, CHR 0xD0, CHR 0xB0, CHR 0x20,
      CHR 0xD0, CHR 0xB1, CHR 0xD1, CHR 0x8B, CHR 0xD1, CHR 0x82, CHR 0xD1, CHR 0x8C,
      CHR 0x20, CHR 0xD0, CHR 0xB1, CHR 0xD0, CHR 0xBE, CHR 0xD0, CHR 0xBB, CHR 0xD1,
      CHR 0x8C, CHR 0xD1, CHR 0x88, CHR 0xD0, CHR 0xB5, CHR 0x20, CHR 0xD0, CHR 0xBD,
      CHR 0xD1, CHR 0x83, CHR 0xD0, CHR 0xBB, CHR 0xD1, CHR 0x8F]"

definition category_message :: string where
  \<comment> \<open>Vyberite kategoriyu (choose a category), in Cyrillic\<close>
  "category_message =
     [CHR 0xD0, CHR 0x92, CHR 0xD1, CHR 0x8B, CHR 0xD0, CHR 0xB1, CHR 0xD0, CHR 0xB5,
      CHR 0xD1, CHR 0x80, CHR 0xD0, CHR 0xB8, CHR 0xD1, CHR 0x82, CHR 0xD0, CHR 0xB5,
      CHR 0x20, CHR 0xD0, CHR 0xBA, CHR 0xD0, CHR 0xB0, CHR 0xD1, CHR 0x82, CHR 0xD0,
      CHR 0xB5, CHR 0xD0, CHR 0xB3, CHR 0xD0, CHR 0xBE, CHR 0xD1, CHR 0x80, CHR 0xD0,
      CHR 0xB8, CHR 0xD1, CHR 0x8E]"

definition date_message :: string where
  \<comment> \<open>Ukazhite datu (give a date), in Cyrillic\<close>
  "date_message =
     [CHR 0xD0, CHR 0xA3, CHR 0xD0, CHR 0xBA, CHR 0xD0, CHR 0xB0, CHR 0xD0, CHR 0xB6,
      CHR 0xD0, CHR 0xB8, CHR 0xD1, CHR 0x82, CHR 0xD0, CHR 0xB5, CHR 0x20, CHR 0xD0,
      CHR 0xB4, CHR 0xD0, CHR 0xB0, CHR 0xD1, CHR 0x82, CHR 0xD1, CHR 0x83]"

record validation =
  valid :: bool
  errors :: "string list"

definition validateTransaction :: "transaction_data \<Rightarrow> validation" where
  "validateTransaction data =
     (let errors0 = [];
          errors1 = (if \<not> truthy_string (data_type data) \<or>
                        \<not> (data_type data \<in> set [Some ''income'', Some ''expense''])
                     then errors0 @ [invalid_type_message] else errors0);
          errors2 = (if \<not> truthy_number (data_amount data) \<or> le_zero (data_amount data)
                     then errors1 @ [amount_message] else errors1);
          errors3 = (if \<not> truthy_number (data_category_id data)
                     then errors2 @ [category_message] else errors2);
          errors4 = (if \<not> truthy_string (data_date data)
                     then errors3 @ [date_message] else errors3)
      in \<lparr> valid = (length errors4 = 0), errors = errors4 \<rparr>)"

definition lunch :: transaction_data where
  "lunch = \<lparr> data_type = Some ''expense'', data_amount = Some (Finite 250),
             data_category_id = Some (Finite 1), data_date = Some ''2025-01-15'' \<rparr>"

definition empty_form :: transaction_data where
  \<comment> \<open>what the form gives when nothing was entered: \<open>parseFloat('')\<close> is \<open>NaN\<close>\<close>
  "empty_form = \<lparr> data_type = Some ''expense'', data_amount = Some NaN,
                  data_category_id = Some NaN, data_date = Some [] \<rparr>"

section \<open>API: formatting a date for the REST API\<close>

text \<open>
  \<open>formatDate(date)\<close> distinguishes a string, a \<open>Date\<close> object and anything else. Of a
  \<open>Date\<close> the method reads \<open>getFullYear()\<close>, \<open>getMonth()\<close> (0 to 11) and \<open>getDate()\<close>
  (1 to 31) in local time; all three are \<open>NaN\<close> for an invalid \<open>Date\<close> such as
  \<open>new Date('x')\<close>, which is \<open>None\<close> here. \<open>new Date()\<close>, the current time, is always valid.
\<close>

record local_date =
  fullYear :: int
  month :: nat
  date :: nat

datatype date_arg = StringArg string | DateArg "local_date option" | OtherArg

definition digit_char :: "nat \<Rightarrow> char" where
  \<comment> \<open>the digit of a value below ten\<close>
  "digit_char d = ''0123456789'' ! (d mod 10)"

fun nat_to_string :: "nat \<Rightarrow> string" where
  \<comment> \<open>the decimal numeral of a non-negative integer\<close>
  "nat_to_string n = (if n < 10 then [digit_char n] else nat_to_string (n div 10) @ [digit_char (n mod 10)])"

definition number_to_string :: "int option \<Rightarrow> string" where
  \<comment> \<open>\<open>String(x)\<close> for an integral number, or for \<open>NaN\<close> (\<open>None\<close>)\<close>
  "number_to_string x =
     (case x of
        None \<Rightarrow> ''NaN''
      | Some i \<Rightarrow> if i < 0 then CHR ''-'' # nat_to_string (nat (- i)) else nat_to_string (nat i))"

definition padStart2 :: "string \<Rightarrow> string" where
  \<comment> \<open>\<open>s.padStart(2, '0')\<close>\<close>
  "padStart2 s = replicate (2 - length s) CHR ''0'' @ s"

definition year_month_day :: "local_date option \<Rightarrow> string" where
  \<comment> \<open>the template \<open>`${year}-${month}-${day}`\<close> with \<open>month = String(getMonth() + 1).padStart(2, '0')\<close>
      and \<open>day = String(getDate()).padStart(2, '0')\<close>\<close>
  "year_month_day d =
     (let year = number_to_string (map_option fullYear d);
          month = padStart2 (number_to_string (map_option (\<lambda>d. int (month d) + 1) d));
          day = padStart2 (number_to_string (map_option (\<lambda>d. int (date d)) d))
      in year @ ''-'' @ month @ ''-'' @ day)"

definition formatDate :: "local_date \<Rightarrow> date_arg \<Rightarrow> string" where
  \<comment> \<open>the first argument is \<open>new Date()\<close>, read when the fallback runs\<close>
  "formatDate now arg =
     (case arg of
        StringArg s \<Rightarrow> s
      | DateArg d \<Rightarrow> year_month_day d
      | OtherArg \<Rightarrow> year_month_day (Some now))"

definition is_yyyy_mm_dd :: "string \<Rightarrow> bool" where
  \<comment> \<open>four digits, a hyphen, two digits, a hyphen, two digits\<close>
  "is_yyyy_mm_dd s \<longleftrightarrow>
     length s = 10 \<and> list_all is_digit (take 4 s) \<and> s ! 4 = CHR ''-'' \<and>
     list_all is_digit (take 2 (drop 5 s)) \<and> s ! 7 = CHR ''-'' \<and>
     list_all is_digit (drop 8 s)"

definition valid_local_date :: "local_date \<Rightarrow> bool" where
  \<comment> \<open>the ranges of \<open>getMonth()\<close> and \<open>getDate()\<close>\<close>
  "valid_local_date d \<longleftrightarrow> month d < 12 \<and> 1 \<le> date d \<and> date d \<le> 31"

definition stated_formatDate_result :: "local_date \<Rightarrow> date_arg \<Rightarrow> bool" where
  \<comment> \<open>``the result is always a YYYY-MM-DD string or the original string''\<close>
  "stated_formatDate_result now arg \<longleftrightarrow>
     is_yyyy_mm_dd (formatDate now arg) \<or> arg = StringArg (formatDate now arg)"

definition new_year_2025 :: local_date where
  "new_year_2025 = \<lparr> fullYear = 2025, month = 0, date = 1 \<rparr>"

definition march_8 :: local_date where
  \<comment> \<open>\<open>new Date(2025, 2, 8)\<close>\<close>
  "march_8 = \<lparr> fullYear = 2025, month = 2, date = 8 \<rparr>"

chapter \<open>Properties\<close>

section \<open>Statistics\<close>






















lemma sum_list_pos: "xs \<noteq> [] \<Longrightarrow> \<forall>t \<in> set xs. 0 < f t \<Longrightarrow> 0 < sum_list (map f xs :: real list)"
proof (induction xs)
  case Nil
  then show ?case by simp
next
  case (Cons x xs)
  show ?case
  proof (cases "xs = []")
    case True
    with Cons.prems show ?thesis by simp
  next
    case False
    with Cons have "0 < sum_list (map f xs)" by simp
    moreover have "0 < f x" using Cons.prems by simp
    ultimately show ?thesis by simp
  qed
qed

lemma positive_sum:
  assumes "\<forall>t \<in> set ts. 0 < amount t" "c \<in> categories_of ts"
  shows "0 < category_sum ts c"
proof -
  let ?xs = "filter (\<lambda>t. group_of t = c) (non_income ts)"
  have ne: "?xs \<noteq> []"
    using assms(2) by (auto simp: categories_of_def filter_empty_conv)
  have "\<forall>t \<in> set ?xs. 0 < amount t" using assms(1) by (simp add: non_income_def)
  with ne have "0 < sum_list (map amount ?xs)" by (rule sum_list_pos)
  then show ?thesis by (simp add: category_sum_def)
qed








lemma topCategory_zero_expense: "topCategory (calculateStats zero_expense) = dash"
  by (simp add: zero_expense_def calculateStats_def stats_step_def accumulate_def
      get_def put_def or_zero_def truthy_def plus_number_def object_prototype_functions_def
      own_keys_def is_array_index_def is_digit_def top_step_def name_or_prochee_def)


text \<open>
  The amounts have to be strictly positive for the specification's words: a single expense
  of amount 0 keeps the placeholder, since \<open>maxAmount\<close> starts at 0 and only a strictly
  greater sum replaces it.
\<close>
lemma zero_expense_keeps_placeholder:
  "topCategory (calculateStats zero_expense) = dash \<and>
   \<not> stated_topCategory zero_expense (topCategory (calculateStats zero_expense))"
proof -
  have "dash \<notin> categories_of zero_expense"
    by (simp add: zero_expense_def categories_of_def non_income_def group_of_def
        has_category_name_def dash_def)
  moreover have "non_income zero_expense \<noteq> []"
    by (simp add: zero_expense_def non_income_def)
  ultimately show ?thesis
    by (simp add: stated_topCategory_def topCategory_zero_expense)
qed

text \<open>
  Claim C2. After \<open>calculateStats\<close>, \<open>stats.balance\<close> is \<open>stats.totalIncome\<close> minus
  \<open>stats.totalExpense\<close>, and \<open>stats.count\<close> is the length of the transaction list.
\<close>
theorem calculateStats_balance_count:
  "balance (calculateStats ts) = totalIncome (calculateStats ts) - totalExpense (calculateStats ts) \<and>
   count (calculateStats ts) = length ts"
  by (simp add: calculateStats_def Let_def split: prod.splits)

section \<open>The expense chart\<close>





























section \<open>Retry with exponential backoff\<close>

lemmas retry_loop_unfold = retry_loop.simps

declare retry_loop.simps [simp del]

lemma attempts_step:
  assumes ik: "i < k"
  shows "attempts delay i k = Invoke i # Sleep delay # attempts (delay * 2) (Suc i) k"
proof -
  define F where "F = (\<lambda>j. [Invoke j, Sleep (delay * 2 ^ (j - i))])"
  define G where "G = (\<lambda>j. [Invoke j, Sleep (delay * 2 * 2 ^ (j - Suc i))])"
  have FG: "map F [Suc i..<k] = map G [Suc i..<k]"
  proof (rule map_cong [OF refl])
    fix j assume "j \<in> set [Suc i..<k]"
    then have "j - i = Suc (j - Suc i)" by auto
    then show "F j = G j" by (simp add: F_def G_def)
  qed
  have "[i..<k] = i # [Suc i..<k]" using ik by (simp add: upt_conv_Cons)
  then have "attempts delay i k = F i @ concat (map F [Suc i..<k]) @ [Invoke k]"
    by (simp add: attempts_def F_def)
  also have "\<dots> = F i @ concat (map G [Suc i..<k]) @ [Invoke k]"
    by (simp only: FG)
  also have "\<dots> = Invoke i # Sleep delay # attempts (delay * 2) (Suc i) k"
    by (simp add: F_def G_def attempts_def)
  finally show ?thesis .
qed

lemma retry_loop_success:
  "int k < maxRetries \<Longrightarrow> i \<le> k \<Longrightarrow> requestFn k = Fulfilled v \<Longrightarrow>
   \<forall>j. i \<le> j \<and> j < k \<longrightarrow> (\<exists>e. requestFn j = Rejected e) \<Longrightarrow>
   retry_loop requestFn maxRetries i delay = (attempts delay i k, Returned v)"
proof (induction "k - i" arbitrary: i delay)
  case 0
  then have "i = k" by simp
  with 0 show ?case by (simp add: retry_loop_unfold [of requestFn maxRetries k] attempts_def)
next
  case (Suc n)
  then have ik: "i < k" by simp
  with Suc.prems obtain e where e: "requestFn i = Rejected e" by blast
  have ih: "retry_loop requestFn maxRetries (Suc i) (delay * 2) = (attempts (delay * 2) (Suc i) k, Returned v)"
    using Suc.hyps(2) Suc.prems ik by (intro Suc.hyps(1)) auto
  have "int i < maxRetries" "int i \<noteq> maxRetries - 1" using ik Suc.prems(1) by auto
  then show ?case
    by (simp add: retry_loop_unfold [of requestFn maxRetries i] e ih attempts_step [OF ik])
qed

lemma retry_loop_failure:
  "int k = maxRetries - 1 \<Longrightarrow> i \<le> k \<Longrightarrow>
   \<forall>j. i \<le> j \<and> j < k \<longrightarrow> (\<exists>e. requestFn j = Rejected e) \<Longrightarrow>
   requestFn k = Rejected err \<Longrightarrow>
   retry_loop requestFn maxRetries i delay = (attempts delay i k, Thrown err)"
proof (induction "k - i" arbitrary: i delay)
  case 0
  then have "i = k" by simp
  with 0 show ?case by (simp add: retry_loop_unfold [of requestFn maxRetries k] attempts_def)
next
  case (Suc n)
  then have ik: "i < k" by simp
  with Suc.prems obtain e where e: "requestFn i = Rejected e" by blast
  have ih: "retry_loop requestFn maxRetries (Suc i) (delay * 2) = (attempts (delay * 2) (Suc i) k, Thrown err)"
    using Suc.hyps(2) Suc.prems ik by (intro Suc.hyps(1)) auto
  have "int i < maxRetries" "int i \<noteq> maxRetries - 1" using ik Suc.prems(1) by auto
  then show ?case
    by (simp add: retry_loop_unfold [of requestFn maxRetries i] e ih attempts_step [OF ik])
qed

lemma invocations_attempts: "i \<le> k \<Longrightarrow> invocations (attempts delay i k) = Suc (k - i)"
proof (induction "k - i" arbitrary: i delay)
  case 0
  then show ?case by (simp add: attempts_def invocations_def)
next
  case (Suc n)
  then have ik: "i < k" by simp
  have "invocations (attempts (delay * 2) (Suc i) k) = Suc (k - Suc i)"
    using Suc by (intro Suc.hyps(1)) auto
  then show ?case using ik
    by (simp add: attempts_step [OF ik] invocations_def)
qed

lemma retry_loop_none: "\<not> int i < maxRetries \<Longrightarrow> retry_loop requestFn maxRetries i delay = ([], ReturnedUndefined)"
  by (simp add: retry_loop_unfold [of requestFn maxRetries i])

lemma rejected_or_fulfilled: "(\<exists>e. r = Rejected e) \<or> (\<exists>v. r = Fulfilled v)"
  by (cases r) auto

lemma retryRequest_cases:
  assumes m: "1 \<le> maxRetries"
  shows "(\<exists>k v. int k < maxRetries \<and> requestFn k = Fulfilled v \<and>
            (\<forall>j<k. \<exists>e. requestFn j = Rejected e) \<and>
            retryRequest requestFn maxRetries delay = (attempts delay 0 k, Returned v)) \<or>
         (\<exists>e. (\<forall>j. int j < maxRetries \<longrightarrow> (\<exists>e'. requestFn j = Rejected e')) \<and>
            requestFn (nat maxRetries - 1) = Rejected e \<and>
            retryRequest requestFn maxRetries delay = (attempts delay 0 (nat maxRetries - 1), Thrown e))"
proof (cases "\<exists>k v. int k < maxRetries \<and> requestFn k = Fulfilled v")
  case True
  define P where "P = (\<lambda>k. int k < maxRetries \<and> (\<exists>v. requestFn k = Fulfilled v))"
  from True have "\<exists>k. P k" by (auto simp: P_def)
  then have PL: "P (LEAST k. P k)" by (rule LeastI_ex)
  define k where "k = (LEAST k. P k)"
  from PL obtain v where kv: "int k < maxRetries" "requestFn k = Fulfilled v"
    by (auto simp: P_def k_def)
  have before: "\<forall>j<k. \<exists>e. requestFn j = Rejected e"
  proof (intro allI impI)
    fix j assume jk: "j < k"
    then have "\<not> P j" unfolding k_def by (rule not_less_Least)
    moreover have "int j < maxRetries" using jk kv(1) by simp
    ultimately have "\<not> (\<exists>v. requestFn j = Fulfilled v)" by (simp add: P_def)
    then show "\<exists>e. requestFn j = Rejected e"
      using rejected_or_fulfilled [of "requestFn j"] by blast
  qed
  then have "retryRequest requestFn maxRetries delay = (attempts delay 0 k, Returned v)"
    unfolding retryRequest_def using kv by (intro retry_loop_success) auto
  with kv before show ?thesis by blast
next
  case False
  then have all: "\<forall>j. int j < maxRetries \<longrightarrow> (\<exists>e'. requestFn j = Rejected e')"
    using rejected_or_fulfilled by (metis settled.distinct(1))
  have last: "int (nat maxRetries - 1) = maxRetries - 1" using m by simp
  then have "int (nat maxRetries - 1) < maxRetries" by simp
  with all obtain e where e: "requestFn (nat maxRetries - 1) = Rejected e" by blast
  have "retryRequest requestFn maxRetries delay = (attempts delay 0 (nat maxRetries - 1), Thrown e)"
    unfolding retryRequest_def using last all e by (intro retry_loop_failure) auto
  with all e show ?thesis by blast
qed

text \<open>
  Claim C4. For every request function, every integer \<open>maxRetries \<ge> 1\<close> and every initial
  delay: when attempt \<open>k\<close> (from 0) is the first to succeed and \<open>k < maxRetries\<close>,
  \<open>retryRequest\<close> returns its result after exactly the attempts \<open>0, ..., k\<close>, having waited
  \<open>delay * 2^j\<close> after the failed attempt \<open>j\<close>; when all \<open>maxRetries\<close> attempts fail, it
  throws the error of the last one after exactly \<open>maxRetries\<close> attempts, with the same waits
  between them and none after the last. In every case the request function is called at most
  \<open>maxRetries\<close> times.
\<close>
theorem retryRequest_backoff:
  assumes m: "1 \<le> maxRetries"
  shows "(\<forall>k v. int k < maxRetries \<and> requestFn k = Fulfilled v \<and>
            (\<forall>j<k. \<exists>e. requestFn j = Rejected e) \<longrightarrow>
          retryRequest requestFn maxRetries delay = (attempts delay 0 k, Returned v)) \<and>
         ((\<forall>j. int j < maxRetries \<longrightarrow> (\<exists>e. requestFn j = Rejected e)) \<longrightarrow>
          (\<exists>e. requestFn (nat maxRetries - 1) = Rejected e \<and>
             retryRequest requestFn maxRetries delay =
               (attempts delay 0 (nat maxRetries - 1), Thrown e))) \<and>
         (\<exists>k. int k < maxRetries \<and>
              fst (retryRequest requestFn maxRetries delay) = attempts delay 0 k) \<and>
         invocations (fst (retryRequest requestFn maxRetries delay)) \<le> nat maxRetries"
proof (intro conjI allI impI)
  fix k v
  assume "int k < maxRetries \<and> requestFn k = Fulfilled v \<and> (\<forall>j<k. \<exists>e. requestFn j = Rejected e)"
  then show "retryRequest requestFn maxRetries delay = (attempts delay 0 k, Returned v)"
    unfolding retryRequest_def by (intro retry_loop_success) auto
next
  assume all: "\<forall>j. int j < maxRetries \<longrightarrow> (\<exists>e. requestFn j = Rejected e)"
  have last: "int (nat maxRetries - 1) = maxRetries - 1" using m by simp
  then have "int (nat maxRetries - 1) < maxRetries" by simp
  with all obtain e where e: "requestFn (nat maxRetries - 1) = Rejected e" by blast
  have "retryRequest requestFn maxRetries delay = (attempts delay 0 (nat maxRetries - 1), Thrown e)"
    unfolding retryRequest_def using last all e by (intro retry_loop_failure) auto
  with e show "\<exists>e. requestFn (nat maxRetries - 1) = Rejected e \<and>
             retryRequest requestFn maxRetries delay =
               (attempts delay 0 (nat maxRetries - 1), Thrown e)" by blast
next
  have last: "int (nat maxRetries - 1) < maxRetries" using m by simp
  with retryRequest_cases [OF m, of requestFn delay]
  show tr: "\<exists>k. int k < maxRetries \<and> fst (retryRequest requestFn maxRetries delay) = attempts delay 0 k"
    by (metis fst_conv)
  then obtain k where k: "int k < maxRetries" "fst (retryRequest requestFn maxRetries delay) = attempts delay 0 k"
    by blast
  then show "invocations (fst (retryRequest requestFn maxRetries delay)) \<le> nat maxRetries"
    by (simp add: invocations_attempts)
qed

lemma attempts_0_2: "attempts 1000 0 2 = [Invoke 0, Sleep 1000, Invoke 1, Sleep 2000, Invoke 2]"
  by (simp add: attempts_def numeral_2_eq_2)

text \<open>
  A request that succeeds at its third call, and requests that fail throughout.
\<close>
theorem retryRequest_backoff_witness:
  "(1::int) \<le> 3 \<and>
   retryRequest flaky 3 1000 = ([Invoke 0, Sleep 1000, Invoke 1, Sleep 2000, Invoke 2], Returned 42) \<and>
   retryRequest down 3 1000 = ([Invoke 0, Sleep 1000, Invoke 1, Sleep 2000, Invoke 2], Thrown 2) \<and>
   retryRequest flaky 2 1000 = ([Invoke 0, Sleep 1000, Invoke 1], Thrown ''timeout'')"
proof -
  have three: "(1::int) \<le> 3" and two: "(1::int) \<le> 2" by simp_all
  have "int 2 < 3 \<and> flaky 2 = Fulfilled 42 \<and> (\<forall>j<2. \<exists>e. flaky j = Rejected e)"
    by (simp add: flaky_def)
  with retryRequest_backoff [OF three, of flaky 1000]
  have a: "retryRequest flaky 3 1000 = (attempts 1000 0 2, Returned 42)" by blast
  have "\<forall>j. int j < 3 \<longrightarrow> (\<exists>e. down j = Rejected e)" by (simp add: down_def)
  with retryRequest_backoff [OF three, of down 1000]
  have b: "retryRequest down 3 1000 = (attempts 1000 0 2, Thrown 2)"
    by (auto simp: down_def)
  have "\<forall>j. int j < 2 \<longrightarrow> (\<exists>e. flaky j = Rejected e)" by (simp add: flaky_def)
  with retryRequest_backoff [OF two, of flaky 1000]
  have c: "retryRequest flaky 2 1000 = (attempts 1000 0 1, Thrown ''timeout'')"
    by (auto simp: flaky_def)
  have "attempts 1000 0 1 = [Invoke 0, Sleep 1000, Invoke 1]"
    by (simp add: attempts_def)
  with a b c show ?thesis by (simp add: attempts_0_2)
qed

section \<open>The schema\<close>

text \<open>
  Claim C5. \<open>schema.sql\<close> creates exactly the tables \<open>users\<close>, \<open>categories\<close> and
  \<open>transactions\<close>; the primary key of each is its column \<open>id\<close>, of type \<open>SERIAL\<close>; and its
  eleven secondary indexes are on these tables, at least two on each.
\<close>
theorem schema_three_tables:
  "map (\<lambda>(n, cs). (n, primary_key cs)) (tables schema_sql) =
     [(''users'', [(''id'', SERIAL)]),
      (''categories'', [(''id'', SERIAL)]),
      (''transactions'', [(''id'', SERIAL)])] \<and>
   map snd (indexes schema_sql) =
     [''users'', ''users'', ''categories'', ''categories'',
      ''transactions'', ''transactions'', ''transactions'', ''transactions'', ''transactions'',
      ''transactions'', ''transactions'']"
  by (simp add: schema_sql_def tables_def indexes_def primary_key_def col_def)

section \<open>Constraints and triggers\<close>

lemma first_of_None: "first_of vs = None \<longleftrightarrow> (\<forall>v \<in> set vs. v = None)"
proof (induction vs)
  case Nil
  then show ?case by (simp add: first_of_def List.map_filter_simps)
next
  case (Cons v vs)
  then show ?case
    by (cases v) (auto simp: first_of_def List.map_filter_simps split: list.splits)
qed

lemma first_violation_None: "first_violation check rs = None \<longleftrightarrow> (\<forall>r \<in> set rs. check r = None)"
proof (induction rs)
  case Nil
  then show ?case by (simp add: first_violation_def List.map_filter_simps)
next
  case (Cons r rs)
  then show ?case
    by (cases "check r") (auto simp: first_violation_def List.map_filter_simps split: list.splits)
qed

lemma case_first_of_Inr:
  "(case first_of vs of Some v \<Rightarrow> Inl v | None \<Rightarrow> Inr d) = Inr d' \<longleftrightarrow>
     (\<forall>v \<in> set vs. v = None) \<and> d' = d"
  by (cases "first_of vs") (auto simp: first_of_None [symmetric])

lemma case_first_of_Inl:
  "(\<exists>v. (case first_of vs of Some v \<Rightarrow> Inl v | None \<Rightarrow> Inr d) = Inl v) \<longleftrightarrow>
     \<not> (\<forall>v \<in> set vs. v = None)"
  by (cases "first_of vs") (auto simp: first_of_None [symmetric])

lemma row_violation_None: "transactions_row_violation r = None \<Longrightarrow> row_ok r"
  by (auto simp: transactions_row_violation_def row_ok_def split: if_splits)

lemma not_row_ok_violation: "\<not> row_ok r \<Longrightarrow> transactions_row_violation r \<noteq> None"
  using row_violation_None by blast

lemma reference_violation_None:
  "transactions_reference_violation db r = None \<Longrightarrow> t_user_id r = Some k \<Longrightarrow>
   \<exists>u \<in> set (users db). u_id u = Some k"
  by (auto simp: transactions_reference_violation_def split: if_splits)

lemma invariant_iff:
  "transactions_row_invariant db r \<longleftrightarrow>
     row_ok r \<and> (\<forall>k. t_user_id r = Some k \<longrightarrow> (\<exists>u \<in> set (users db). u_id u = Some k))"
  by (auto simp: transactions_row_invariant_def row_ok_def)

lemma row_ok_trigger [simp]: "row_ok (update_transactions_updated_at now r) = row_ok r"
  by (simp add: row_ok_def update_transactions_updated_at_def update_updated_at_column_def)

lemma user_id_trigger [simp]: "t_user_id (update_transactions_updated_at now r) = t_user_id r"
  by (simp add: update_transactions_updated_at_def update_updated_at_column_def)

lemma u_id_trigger [simp]: "u_id (update_users_updated_at now r) = u_id r"
  by (simp add: update_users_updated_at_def update_updated_at_column_def)

lemma inv_same_users:
  assumes "rows_invariant db" "users db' = users db"
    "\<forall>r' \<in> set (transactions db'). \<exists>r \<in> set (transactions db).
        row_ok r' = row_ok r \<and> t_user_id r' = t_user_id r"
  shows "rows_invariant db'"
  unfolding rows_invariant_def invariant_iff
proof (intro ballI)
  fix r' assume "r' \<in> set (transactions db')"
  with assms(3) obtain r where r: "r \<in> set (transactions db)" "row_ok r' = row_ok r"
    "t_user_id r' = t_user_id r" by blast
  from assms(1) r(1) have "row_ok r \<and> (\<forall>k. t_user_id r = Some k \<longrightarrow> (\<exists>u \<in> set (users db). u_id u = Some k))"
    by (simp add: rows_invariant_def invariant_iff)
  with r assms(2) show "row_ok r' \<and> (\<forall>k. t_user_id r' = Some k \<longrightarrow> (\<exists>u \<in> set (users db'). u_id u = Some k))"
    by simp
qed

lemma exec_preserves_invariant:
  assumes "rows_invariant db" and "exec now db s = Inr db'"
  shows "rows_invariant db'"
proof (cases s)
  case (INSERT_users r)
  with assms show ?thesis
    by (auto simp: rows_invariant_def invariant_iff case_first_of_Inr)
next
  case (UPDATE_users k set_clause)
  let ?m = "\<lambda>r. u_id r = Some k"
  let ?new = "\<lambda>r. update_users_updated_at now (set_clause r)"
  from assms(2) UPDATE_users
  have db': "db' = db\<lparr> users := replaced ?m ?new (users db) \<rparr>"
    and fk: "\<not> ((\<exists>r \<in> set (users db). ?m r \<and> u_id (?new r) \<noteq> u_id r) \<and>
                Some k \<in> set (map t_user_id (transactions db)))"
    by (auto simp: Let_def case_first_of_Inr split: if_splits)
  show ?thesis
    unfolding rows_invariant_def invariant_iff
  proof (intro ballI conjI allI impI)
    fix r assume r: "r \<in> set (transactions db')"
    then have r': "r \<in> set (transactions db)" by (simp add: db')
    with assms(1) show "row_ok r" by (simp add: rows_invariant_def invariant_iff)
    fix j assume j: "t_user_id r = Some j"
    with assms(1) r' obtain u where u: "u \<in> set (users db)" "u_id u = Some j"
      by (auto simp: rows_invariant_def invariant_iff)
    show "\<exists>u \<in> set (users db'). u_id u = Some j"
    proof (cases "j = k")
      case True
      then have "Some k \<in> set (map t_user_id (transactions db))"
        using r' j by force
      with fk u True have "u_id (?new u) = Some j" by auto
      moreover have "?new u \<in> set (users db')"
        using u True by (force simp: db' replaced_def)
      ultimately show ?thesis by blast
    next
      case False
      with u have "u \<in> set (users db')" by (force simp: db' replaced_def)
      with u show ?thesis by blast
    qed
  qed
next
  case (DELETE_users k)
  with assms(2) have db': "db' = db\<lparr> users := filter (\<lambda>r. u_id r \<noteq> Some k) (users db),
              transactions := filter (\<lambda>r. t_user_id r \<noteq> Some k) (transactions db) \<rparr>"
    by simp
  show ?thesis
    unfolding rows_invariant_def invariant_iff
  proof (intro ballI conjI allI impI)
    fix r assume r: "r \<in> set (transactions db')"
    then have r': "r \<in> set (transactions db)" "t_user_id r \<noteq> Some k" by (simp_all add: db')
    with assms(1) show "row_ok r" by (simp add: rows_invariant_def invariant_iff)
    fix j assume j: "t_user_id r = Some j"
    with assms(1) r' obtain u where u: "u \<in> set (users db)" "u_id u = Some j"
      by (auto simp: rows_invariant_def invariant_iff)
    with j r' have "u \<in> set (users db')" by (simp add: db')
    with u show "\<exists>u \<in> set (users db'). u_id u = Some j" by blast
  qed
next
  case (INSERT_categories r)
  with assms show ?thesis
    by (auto simp: rows_invariant_def invariant_iff case_first_of_Inr)
next
  case (UPDATE_categories k set_clause)
  with assms show ?thesis
    by (auto simp: rows_invariant_def invariant_iff Let_def case_first_of_Inr split: if_splits)
next
  case (DELETE_categories k)
  let ?new = "\<lambda>r. update_transactions_updated_at now (r\<lparr> t_category_id := None \<rparr>)"
  from assms(2) DELETE_categories
  have db': "db' = db\<lparr> categories := filter (\<lambda>r. c_id r \<noteq> Some k) (categories db),
              transactions := replaced (\<lambda>r. t_category_id r = Some k) ?new (transactions db) \<rparr>"
    by simp
  have same: "row_ok (?new r) = row_ok r \<and> t_user_id (?new r) = t_user_id r" for r
    by (simp add: row_ok_def update_transactions_updated_at_def update_updated_at_column_def)
  show ?thesis
  proof (rule inv_same_users [OF assms(1)])
    show "users db' = users db" by (simp add: db')
    show "\<forall>r' \<in> set (transactions db'). \<exists>r \<in> set (transactions db).
        row_ok r' = row_ok r \<and> t_user_id r' = t_user_id r"
    proof
      fix r' assume "r' \<in> set (transactions db')"
      then obtain r where r: "r \<in> set (transactions db)"
        "r' = (if t_category_id r = Some k then ?new r else r)"
        by (auto simp: db' replaced_def)
      with same [of r] show "\<exists>r \<in> set (transactions db).
        row_ok r' = row_ok r \<and> t_user_id r' = t_user_id r"
        by (cases "t_category_id r = Some k") auto
    qed
  qed
next
  case (INSERT_transactions r)
  with assms(2) have db': "db' = db\<lparr> transactions := transactions db @ [r] \<rparr>"
    and ok: "transactions_row_violation r = None" "transactions_reference_violation db r = None"
    by (auto simp: case_first_of_Inr)
  from ok have "transactions_row_invariant db r"
    by (auto simp: invariant_iff dest: row_violation_None reference_violation_None)
  with assms(1) show ?thesis
    by (auto simp: rows_invariant_def db' invariant_iff)
next
  case (UPDATE_transactions k set_clause)
  let ?m = "\<lambda>r. t_id r = Some k"
  let ?new = "\<lambda>r. update_transactions_updated_at now (set_clause r)"
  from assms(2) UPDATE_transactions
  have db': "db' = db\<lparr> transactions := replaced ?m ?new (transactions db) \<rparr>"
    and ok: "\<forall>r \<in> set (changed ?m ?new (transactions db)). transactions_row_violation r = None"
       "\<forall>r \<in> set (changed ?m ?new (transactions db)). transactions_reference_violation db r = None"
    by (auto simp: Let_def case_first_of_Inr first_violation_None)
  have "transactions_row_invariant db r" if "r \<in> set (transactions db')" for r
  proof -
    from that obtain old where old: "old \<in> set (transactions db)"
      "r = (if ?m old then ?new old else old)"
      by (auto simp: db' replaced_def)
    show ?thesis
    proof (cases "?m old")
      case True
      with old have "r \<in> set (changed ?m ?new (transactions db))"
        by (auto simp: changed_def)
      with ok show ?thesis
        by (auto simp: invariant_iff dest: row_violation_None reference_violation_None)
    next
      case False
      with old assms(1) show ?thesis by (simp add: rows_invariant_def)
    qed
  qed
  then show ?thesis by (simp add: rows_invariant_def db' invariant_iff)
next
  case (DELETE_transactions k)
  with assms show ?thesis
    by (auto simp: rows_invariant_def invariant_iff)
qed

lemma run_preserves_inv: "rows_invariant db \<Longrightarrow> rows_invariant (run db s)"
  by (cases "exec (fst s) db (snd s)") (auto simp: run_def dest: exec_preserves_invariant)

lemma foldl_run_inv: "rows_invariant db \<Longrightarrow> rows_invariant (foldl run db ss)"
  by (induction ss arbitrary: db) (simp_all add: run_preserves_inv)

lemma inv_run_all: "rows_invariant (run_all ss)"
  unfolding run_all_def by (rule foldl_run_inv) (simp add: rows_invariant_def empty_database_def)

lemma run_all_sample:
  "run_all sample_statements = one_user_one_row"
  unfolding sample_statements_def
  by (simp add: run_all_def run_def empty_database_def first_of_def List.map_filter_simps
      users_row_violation_def users_key_violation_def transactions_row_violation_def
      transactions_key_violation_def transactions_reference_violation_def
      alice_def lunch_row_def free_lunch_def one_user_one_row_def)

text \<open>
  Claim C9. After any sequence of statements on the empty database, every row of
  \<open>transactions\<close> has a strictly positive amount, the type \<open>'income'\<close> or \<open>'expense'\<close>, a
  \<open>user_id\<close> that is the \<open>id\<close> of a row of \<open>users\<close>, and a transaction date. An insert of a
  row that violates one of these, and an update that would give such a row to the row it
  matches, is rejected and leaves the database unchanged.
\<close>
theorem transactions_constraints_hold:
  "(\<forall>r \<in> set (transactions (run_all ss)). transactions_row_invariant (run_all ss) r) \<and>
   (\<not> transactions_row_invariant db r \<longrightarrow>
      (\<exists>v. exec now db (INSERT_transactions r) = Inl v) \<and>
      run db (now, INSERT_transactions r) = db) \<and>
   ((\<exists>old \<in> set (transactions db).
        t_id old = Some k \<and> \<not> transactions_row_invariant db (set_clause old)) \<longrightarrow>
      (\<exists>v. exec now db (UPDATE_transactions k set_clause) = Inl v) \<and>
      run db (now, UPDATE_transactions k set_clause) = db)"
proof (intro conjI impI)
  show "\<forall>r \<in> set (transactions (run_all ss)). transactions_row_invariant (run_all ss) r"
    using inv_run_all [of ss] by (simp add: rows_invariant_def)
next
  assume bad: "\<not> transactions_row_invariant db r"
  have "transactions_row_violation r \<noteq> None \<or> transactions_reference_violation db r \<noteq> None"
  proof (cases "row_ok r")
    case True
    with bad obtain j where "t_user_id r = Some j" "\<not> (\<exists>u \<in> set (users db). u_id u = Some j)"
      by (auto simp: invariant_iff)
    then have "transactions_reference_violation db r \<noteq> None"
      by (force simp: transactions_reference_violation_def)
    then show ?thesis by simp
  next
    case False
    then show ?thesis by (simp add: not_row_ok_violation)
  qed
  then show rej: "\<exists>v. exec now db (INSERT_transactions r) = Inl v"
    by (auto simp: case_first_of_Inl)
  then show "run db (now, INSERT_transactions r) = db"
    by (auto simp: run_def)
next
  let ?m = "\<lambda>r. t_id r = Some k"
  let ?new = "\<lambda>r. update_transactions_updated_at now (set_clause r)"
  assume "\<exists>old \<in> set (transactions db).
        t_id old = Some k \<and> \<not> transactions_row_invariant db (set_clause old)"
  then obtain old where old: "old \<in> set (transactions db)" "t_id old = Some k"
    "\<not> transactions_row_invariant db (set_clause old)" by blast
  then have mem: "?new old \<in> set (changed ?m ?new (transactions db))"
    by (auto simp: changed_def)
  have "\<not> transactions_row_invariant db (?new old)"
    using old(3) by (simp add: invariant_iff)
  then have "transactions_row_violation (?new old) \<noteq> None \<or>
             transactions_reference_violation db (?new old) \<noteq> None"
    using row_violation_None reference_violation_None unfolding invariant_iff by blast
  with mem have "first_violation transactions_row_violation (changed ?m ?new (transactions db)) \<noteq> None \<or>
       first_violation (transactions_reference_violation db) (changed ?m ?new (transactions db)) \<noteq> None"
    by (auto simp: first_violation_None)
  then show rej: "\<exists>v. exec now db (UPDATE_transactions k set_clause) = Inl v"
    by (auto simp: Let_def case_first_of_Inl)
  then show "run db (now, UPDATE_transactions k set_clause) = db"
    by (auto simp: run_def)
qed

text \<open>
  One user and one transaction; a second transaction of amount 0 and an update of the first to -5.00
  are both rejected.
\<close>
theorem transactions_constraints_hold_witness:
  "transactions (run_all sample_statements) = [lunch_row] \<and>
   transactions_row_invariant (run_all sample_statements) lunch_row \<and>
   \<not> transactions_row_invariant one_user_one_row free_lunch \<and>
   (\<exists>v. exec 3 one_user_one_row (INSERT_transactions free_lunch) = Inl v) \<and>
   run one_user_one_row (3, INSERT_transactions free_lunch) = one_user_one_row \<and>
   \<not> transactions_row_invariant one_user_one_row (refund lunch_row) \<and>
   (\<exists>v. exec 4 one_user_one_row (UPDATE_transactions 1 refund) = Inl v) \<and>
   run one_user_one_row (4, UPDATE_transactions 1 refund) = one_user_one_row"
proof -
  note inst = transactions_constraints_hold
    [where ss = sample_statements and db = one_user_one_row and r = free_lunch and now = 3]
  have rows: "transactions (run_all sample_statements) = [lunch_row]"
    by (simp add: run_all_sample one_user_one_row_def)
  with inst have a: "transactions_row_invariant (run_all sample_statements) lunch_row"
    by simp
  have b: "\<not> transactions_row_invariant one_user_one_row free_lunch"
    by (simp add: transactions_row_invariant_def free_lunch_def)
  with inst have c: "(\<exists>v. exec 3 one_user_one_row (INSERT_transactions free_lunch) = Inl v) \<and>
      run one_user_one_row (3, INSERT_transactions free_lunch) = one_user_one_row"
    by blast
  have d: "\<not> transactions_row_invariant one_user_one_row (refund lunch_row)"
    by (simp add: transactions_row_invariant_def refund_def)
  then have "\<exists>old \<in> set (transactions one_user_one_row).
        t_id old = Some 1 \<and> \<not> transactions_row_invariant one_user_one_row (refund old)"
    by (simp add: one_user_one_row_def lunch_row_def)
  with transactions_constraints_hold
    [where db = one_user_one_row and k = 1 and set_clause = refund and now = 4]
  have e: "(\<exists>v. exec 4 one_user_one_row (UPDATE_transactions 1 refund) = Inl v) \<and>
      run one_user_one_row (4, UPDATE_transactions 1 refund) = one_user_one_row"
    by blast
  from rows a b c d e show ?thesis by blast
qed

lemma replaced_eq: "replaced matches new rs = map (\<lambda>r. if matches r then new r else r) rs"
  by (simp add: replaced_def)

text \<open>
  Claim C6. The trigger function sets \<open>updated_at\<close> to the current time and leaves every other
  column as it is. So after an \<open>UPDATE\<close> of a row of \<open>users\<close> or of \<open>transactions\<close> the row
  is what the \<open>SET\<close> clause made of it, with \<open>updated_at\<close> the current time, and all other
  rows are unchanged; the same holds for the rows that lose their category when a category is
  deleted.
\<close>
theorem update_sets_updated_at:
  "updated_at (update_updated_at_column now NEW) = Some now \<and>
   row_with_updated_at.more (update_updated_at_column now NEW) = row_with_updated_at.more NEW \<and>
   (exec now db (UPDATE_users k set_users) = Inr db1 \<longrightarrow>
      users db1 =
        map (\<lambda>r. if u_id r = Some k then (set_users r)\<lparr> updated_at := Some now \<rparr> else r) (users db)) \<and>
   (exec now db (UPDATE_transactions k set_transactions) = Inr db2 \<longrightarrow>
      transactions db2 =
        map (\<lambda>r. if t_id r = Some k then (set_transactions r)\<lparr> updated_at := Some now \<rparr> else r)
          (transactions db)) \<and>
   (exec now db (DELETE_categories k) = Inr db3 \<longrightarrow>
      transactions db3 =
        map (\<lambda>r. if t_category_id r = Some k
                 then r\<lparr> t_category_id := None, updated_at := Some now \<rparr> else r)
          (transactions db))"
proof (intro conjI impI)
  show "updated_at (update_updated_at_column now NEW) = Some now"
    by (simp add: update_updated_at_column_def)
  show "row_with_updated_at.more (update_updated_at_column now NEW) = row_with_updated_at.more NEW"
    by (simp add: update_updated_at_column_def)
next
  assume "exec now db (UPDATE_users k set_users) = Inr db1"
  then have "db1 = db\<lparr> users := replaced (\<lambda>r. u_id r = Some k)
                (\<lambda>r. update_users_updated_at now (set_users r)) (users db) \<rparr>"
    by (simp add: Let_def case_first_of_Inr)
  then show "users db1 =
        map (\<lambda>r. if u_id r = Some k then (set_users r)\<lparr> updated_at := Some now \<rparr> else r) (users db)"
    by (simp add: replaced_eq update_users_updated_at_def update_updated_at_column_def)
next
  assume "exec now db (UPDATE_transactions k set_transactions) = Inr db2"
  then have "db2 = db\<lparr> transactions := replaced (\<lambda>r. t_id r = Some k)
                (\<lambda>r. update_transactions_updated_at now (set_transactions r)) (transactions db) \<rparr>"
    by (simp add: Let_def case_first_of_Inr)
  then show "transactions db2 =
        map (\<lambda>r. if t_id r = Some k then (set_transactions r)\<lparr> updated_at := Some now \<rparr> else r)
          (transactions db)"
    by (simp add: replaced_eq update_transactions_updated_at_def update_updated_at_column_def)
next
  assume "exec now db (DELETE_categories k) = Inr db3"
  then show "transactions db3 =
        map (\<lambda>r. if t_category_id r = Some k
                 then r\<lparr> t_category_id := None, updated_at := Some now \<rparr> else r)
          (transactions db)"
    by (auto simp: replaced_eq update_transactions_updated_at_def update_updated_at_column_def)
qed

text \<open>
  Updates of the one transaction and of the one user at instant 9; the first tries to set
  \<open>updated_at\<close> to \<open>NULL\<close>.
\<close>
theorem update_sets_updated_at_witness:
  "(\<exists>db2. exec 9 one_user_one_row (UPDATE_transactions 1 dinner) = Inr db2 \<and>
      transactions db2 =
        [lunch_row\<lparr> t_amount := Some 90000, t_description := Some ''dinner'',
                    updated_at := Some 9 \<rparr>]) \<and>
   (\<exists>db1. exec 9 one_user_one_row (UPDATE_users 1 new_username) = Inr db1 \<and>
      users db1 = [alice\<lparr> u_username := Some ''alice2'', updated_at := Some 9 \<rparr>])"
proof -
  obtain db2 where db2: "exec 9 one_user_one_row (UPDATE_transactions 1 dinner) = Inr db2"
    by (simp add: Let_def first_of_def first_violation_def List.map_filter_simps changed_def
        replaced_def transactions_row_violation_def transactions_key_violation_def
        transactions_reference_violation_def update_transactions_updated_at_def
        update_updated_at_column_def one_user_one_row_def lunch_row_def alice_def dinner_def)
  obtain db1 where db1: "exec 9 one_user_one_row (UPDATE_users 1 new_username) = Inr db1"
    by (simp add: Let_def first_of_def first_violation_def List.map_filter_simps changed_def
        replaced_def users_row_violation_def users_key_violation_def
        update_users_updated_at_def update_updated_at_column_def one_user_one_row_def
        lunch_row_def alice_def new_username_def)
  from update_sets_updated_at
    [where now = 9 and db = one_user_one_row and k = 1 and set_users = new_username
       and set_transactions = dinner and ?db1.0 = db1 and ?db2.0 = db2] db1 db2
  have "users db1 =
        map (\<lambda>r. if u_id r = Some 1 then (new_username r)\<lparr> updated_at := Some 9 \<rparr> else r)
          (users one_user_one_row)"
    and "transactions db2 =
        map (\<lambda>r. if t_id r = Some 1 then (dinner r)\<lparr> updated_at := Some 9 \<rparr> else r)
          (transactions one_user_one_row)"
    by blast+
  then have "users db1 = [alice\<lparr> u_username := Some ''alice2'', updated_at := Some 9 \<rparr>]"
    and "transactions db2 =
        [lunch_row\<lparr> t_amount := Some 90000, t_description := Some ''dinner'',
                    updated_at := Some 9 \<rparr>]"
    by (simp_all add: one_user_one_row_def lunch_row_def alice_def dinner_def new_username_def)
  with db1 db2 show ?thesis by blast
qed

section \<open>Popups\<close>

lemma showAlert_bridge_returns:
  "bridge_method tg tg_showAlert = Some Returns \<Longrightarrow>
   showAlert tg message callback = ([BridgeShowAlert message callback], Normal)"
  by (simp add: showAlert_def try_catch_def called_def)

lemma showAlert_bridge_throws:
  assumes "bridge_method tg tg_showAlert = Some Throws"
  shows "showAlert tg message None =
           ([BridgeShowAlert message None, ConsoleError, BrowserAlert message], Normal)"
    and "showAlert tg message (Some Returns) =
           ([BridgeShowAlert message (Some Returns), ConsoleError, BrowserAlert message,
             CallbackCalled None], Normal)"
    and "showAlert tg message (Some Throws) =
           ([BridgeShowAlert message (Some Throws), ConsoleError, BrowserAlert message,
             CallbackCalled None], Exception)"
  using assms
  by (simp_all add: showAlert_def try_catch_def called_def then_do_def alert_then_callback_def
      call_callback_def)

lemma showAlert_no_bridge:
  assumes "bridge_method tg tg_showAlert = None"
  shows "showAlert tg message None = ([BrowserAlert message], Normal)"
    and "showAlert tg message (Some Returns) =
           ([BrowserAlert message, CallbackCalled None], Normal)"
    and "showAlert tg message (Some Throws) =
           ([BrowserAlert message, CallbackCalled None, ConsoleError, BrowserAlert message,
             CallbackCalled None], Exception)"
  using assms
  by (simp_all add: showAlert_def try_catch_def called_def then_do_def alert_then_callback_def
      call_callback_def)

lemma showConfirm_bridge_returns:
  "bridge_method tg tg_showConfirm = Some Returns \<Longrightarrow>
   showConfirm tg answer message callback = ([BridgeShowConfirm message callback], Normal)"
  by (simp add: showConfirm_def try_catch_def called_def)

lemma showConfirm_bridge_throws:
  assumes "bridge_method tg tg_showConfirm = Some Throws"
  shows "showConfirm tg answer message None =
           ([BridgeShowConfirm message None, ConsoleError, BrowserConfirm message], Normal)"
    and "showConfirm tg answer message (Some Returns) =
           ([BridgeShowConfirm message (Some Returns), ConsoleError, BrowserConfirm message,
             CallbackCalled (Some (answer 0))], Normal)"
    and "showConfirm tg answer message (Some Throws) =
           ([BridgeShowConfirm message (Some Throws), ConsoleError, BrowserConfirm message,
             CallbackCalled (Some (answer 0))], Exception)"
  using assms
  by (simp_all add: showConfirm_def try_catch_def called_def then_do_def
      confirm_then_callback_def call_callback_def confirms_shown_def)

lemma showConfirm_no_bridge:
  assumes "bridge_method tg tg_showConfirm = None"
  shows "showConfirm tg answer message None = ([BrowserConfirm message], Normal)"
    and "showConfirm tg answer message (Some Returns) =
           ([BrowserConfirm message, CallbackCalled (Some (answer 0))], Normal)"
    and "showConfirm tg answer message (Some Throws) =
           ([BrowserConfirm message, CallbackCalled (Some (answer 0)), ConsoleError,
             BrowserConfirm message, CallbackCalled (Some (answer 1))], Exception)"
  using assms
  by (simp_all add: showConfirm_def try_catch_def called_def then_do_def
      confirm_then_callback_def call_callback_def confirms_shown_def)

text \<open>
  Claim C7. For every message and every callback, passed or not: when the bridge has
  \<open>showAlert\<close>, \<open>TelegramWebApp.showAlert\<close> calls it first, with the message and the callback,
  and does nothing else when that call returns; when the call throws, it logs the error,
  shows the browser's alert and then calls the callback if one was passed. When the bridge
  has no \<open>showAlert\<close>, or there is no bridge, it shows the browser's alert and then calls the
  callback if one was passed; a callback that throws there is caught, and the alert and the
  callback run a second time. \<open>showConfirm\<close> does the same with the bridge's \<open>showConfirm\<close>
  and the browser's confirmation, whose answer it passes to the callback. Every run is given
  in full: nothing else happens.
\<close>
theorem popups_forward_or_fall_back:
  "(bridge_method tg tg_showAlert = Some Returns \<longrightarrow>
      showAlert tg message callback = ([BridgeShowAlert message callback], Normal)) \<and>
   (bridge_method tg tg_showAlert = Some Throws \<longrightarrow>
      showAlert tg message None =
        ([BridgeShowAlert message None, ConsoleError, BrowserAlert message], Normal) \<and>
      showAlert tg message (Some Returns) =
        ([BridgeShowAlert message (Some Returns), ConsoleError, BrowserAlert message,
          CallbackCalled None], Normal) \<and>
      showAlert tg message (Some Throws) =
        ([BridgeShowAlert message (Some Throws), ConsoleError, BrowserAlert message,
          CallbackCalled None], Exception)) \<and>
   (bridge_method tg tg_showAlert = None \<longrightarrow>
      showAlert tg message None = ([BrowserAlert message], Normal) \<and>
      showAlert tg message (Some Returns) =
        ([BrowserAlert message, CallbackCalled None], Normal) \<and>
      showAlert tg message (Some Throws) =
        ([BrowserAlert message, CallbackCalled None, ConsoleError, BrowserAlert message,
          CallbackCalled None], Exception)) \<and>
   (bridge_method tg tg_showConfirm = Some Returns \<longrightarrow>
      showConfirm tg answer message callback = ([BridgeShowConfirm message callback], Normal)) \<and>
   (bridge_method tg tg_showConfirm = Some Throws \<longrightarrow>
      showConfirm tg answer message None =
        ([BridgeShowConfirm message None, ConsoleError, BrowserConfirm message], Normal) \<and>
      showConfirm tg answer message (Some Returns) =
        ([BridgeShowConfirm message (Some Returns), ConsoleError, BrowserConfirm message,
          CallbackCalled (Some (answer 0))], Normal) \<and>
      showConfirm tg answer message (Some Throws) =
        ([BridgeShowConfirm message (Some Throws), ConsoleError, BrowserConfirm message,
          CallbackCalled (Some (answer 0))], Exception)) \<and>
   (bridge_method tg tg_showConfirm = None \<longrightarrow>
      showConfirm tg answer message None = ([BrowserConfirm message], Normal) \<and>
      showConfirm tg answer message (Some Returns) =
        ([BrowserConfirm message, CallbackCalled (Some (answer 0))], Normal) \<and>
      showConfirm tg answer message (Some Throws) =
        ([BrowserConfirm message, CallbackCalled (Some (answer 0)), ConsoleError,
          BrowserConfirm message, CallbackCalled (Some (answer 1))], Exception))"
proof (intro conjI impI)
qed (simp_all add: showAlert_bridge_returns showAlert_bridge_throws showAlert_no_bridge
    showConfirm_bridge_returns showConfirm_bridge_throws showConfirm_no_bridge)

text \<open>
  The two methods in Telegram, on a host whose \<open>showAlert\<close> throws and which has no
  \<open>showConfirm\<close>, and in a plain browser; called without a callback, as the application
  calls \<open>showAlert\<close>, and with one.
\<close>
theorem popups_forward_or_fall_back_witness:
  "showAlert (Some telegram_bridge) ''saved'' None = ([BridgeShowAlert ''saved'' None], Normal) \<and>
   showAlert (Some old_bridge) ''saved'' None =
     ([BridgeShowAlert ''saved'' None, ConsoleError, BrowserAlert ''saved''], Normal) \<and>
   showAlert None ''saved'' None = ([BrowserAlert ''saved''], Normal) \<and>
   showAlert (Some old_bridge) ''saved'' (Some Returns) =
     ([BridgeShowAlert ''saved'' (Some Returns), ConsoleError, BrowserAlert ''saved'',
       CallbackCalled None], Normal) \<and>
   showAlert None ''saved'' (Some Returns) =
     ([BrowserAlert ''saved'', CallbackCalled None], Normal) \<and>
   showConfirm (Some telegram_bridge) (\<lambda>n. True) ''delete?'' (Some Returns) =
     ([BridgeShowConfirm ''delete?'' (Some Returns)], Normal) \<and>
   showConfirm (Some old_bridge) (\<lambda>n. True) ''delete?'' (Some Returns) =
     ([BrowserConfirm ''delete?'', CallbackCalled (Some True)], Normal) \<and>
   showConfirm None (\<lambda>n. False) ''delete?'' None = ([BrowserConfirm ''delete?''], Normal)"
proof -
  have m: "bridge_method (Some telegram_bridge) tg_showAlert = Some Returns"
    "bridge_method (Some old_bridge) tg_showAlert = Some Throws"
    "bridge_method None tg_showAlert = None"
    "bridge_method (Some telegram_bridge) tg_showConfirm = Some Returns"
    "bridge_method (Some old_bridge) tg_showConfirm = None"
    "bridge_method None tg_showConfirm = None"
    by (simp_all add: bridge_method_def telegram_bridge_def old_bridge_def)
  have "showAlert (Some telegram_bridge) ''saved'' None = ([BridgeShowAlert ''saved'' None], Normal)"
    using popups_forward_or_fall_back
      [where tg = "Some telegram_bridge" and message = "''saved''" and callback = None] m(1)
    by simp
  moreover have "showAlert (Some old_bridge) ''saved'' None =
     ([BridgeShowAlert ''saved'' None, ConsoleError, BrowserAlert ''saved''], Normal)"
    "showAlert (Some old_bridge) ''saved'' (Some Returns) =
     ([BridgeShowAlert ''saved'' (Some Returns), ConsoleError, BrowserAlert ''saved'',
       CallbackCalled None], Normal)"
    using popups_forward_or_fall_back
      [where tg = "Some old_bridge" and message = "''saved''"] m(2)
    by simp_all
  moreover have "showAlert None ''saved'' None = ([BrowserAlert ''saved''], Normal)"
    "showAlert None ''saved'' (Some Returns) =
     ([BrowserAlert ''saved'', CallbackCalled None], Normal)"
    using popups_forward_or_fall_back
      [where tg = None and message = "''saved''"] m(3)
    by simp_all
  moreover have "showConfirm (Some telegram_bridge) (\<lambda>n. True) ''delete?'' (Some Returns) =
     ([BridgeShowConfirm ''delete?'' (Some Returns)], Normal)"
    using popups_forward_or_fall_back
      [where tg = "Some telegram_bridge" and message = "''delete?''" and callback = "Some Returns"
         and answer = "\<lambda>n. True"] m(4)
    by simp
  moreover have "showConfirm (Some old_bridge) (\<lambda>n. True) ''delete?'' (Some Returns) =
     ([BrowserConfirm ''delete?'', CallbackCalled (Some True)], Normal)"
    using popups_forward_or_fall_back
      [where tg = "Some old_bridge" and message = "''delete?''" and answer = "\<lambda>n. True"] m(5)
    by simp
  moreover have "showConfirm None (\<lambda>n. False) ''delete?'' None = ([BrowserConfirm ''delete?''], Normal)"
    using popups_forward_or_fall_back
      [where tg = None and message = "''delete?''" and answer = "\<lambda>n. False"] m(6)
    by simp
  ultimately show ?thesis by blast
qed

section \<open>Validation\<close>

lemma amount_check:
  "\<not> (\<not> truthy_number a \<or> le_zero a) \<longleftrightarrow> (\<exists>n. a = Some n \<and> truthy_number (Some n) \<and> greater_than_zero n)"
  by (cases a) (auto simp: truthy_number_def le_zero_def greater_than_zero_def split: number.splits)

lemma type_check:
  "\<not> (\<not> truthy_string t \<or> \<not> (t \<in> set [Some ''income'', Some ''expense''])) \<longleftrightarrow>
     t = Some ''income'' \<or> t = Some ''expense''"
  by (auto simp: truthy_string_def)

lemma errors_empty_iff:
  "errors (validateTransaction data) = [] \<longleftrightarrow>
     \<not> (\<not> truthy_string (data_type data) \<or> \<not> (data_type data \<in> set [Some ''income'', Some ''expense''])) \<and>
     \<not> (\<not> truthy_number (data_amount data) \<or> le_zero (data_amount data)) \<and>
     truthy_number (data_category_id data) \<and> truthy_string (data_date data)"
  unfolding validateTransaction_def Let_def by (simp del: set_simps)

lemma valid_iff_no_errors:
  "valid (validateTransaction data) \<longleftrightarrow> errors (validateTransaction data) = []"
  unfolding validateTransaction_def Let_def by simp

text \<open>
  Claim C8. \<open>validateTransaction\<close> returns \<open>valid = true\<close> exactly when the type is
  \<open>'income'\<close> or \<open>'expense'\<close>, the amount is present, truthy and strictly greater than zero,
  the category id is present and truthy, and the date is present and truthy; and
  \<open>valid = true\<close> exactly when the list of errors is empty.
\<close>
theorem validateTransaction_valid_iff:
  "(valid (validateTransaction data) \<longleftrightarrow>
      (data_type data = Some ''income'' \<or> data_type data = Some ''expense'') \<and>
      (\<exists>n. data_amount data = Some n \<and> truthy_number (Some n) \<and> greater_than_zero n) \<and>
      (data_category_id data \<noteq> None \<and> truthy_number (data_category_id data)) \<and>
      (data_date data \<noteq> None \<and> truthy_string (data_date data))) \<and>
   (valid (validateTransaction data) \<longleftrightarrow> errors (validateTransaction data) = [])"
proof -
  have c: "truthy_number (data_category_id data) \<longleftrightarrow>
            data_category_id data \<noteq> None \<and> truthy_number (data_category_id data)"
    by (auto simp: truthy_number_def split: option.splits)
  have d: "truthy_string (data_date data) \<longleftrightarrow>
            data_date data \<noteq> None \<and> truthy_string (data_date data)"
    by (auto simp: truthy_string_def split: option.splits)
  show ?thesis
    unfolding valid_iff_no_errors errors_empty_iff amount_check type_check
    using c d by blast
qed

text \<open>
  A complete form is valid, and a form with nothing entered is not.
\<close>
theorem validateTransaction_valid_iff_witness:
  "valid (validateTransaction lunch) \<and> errors (validateTransaction lunch) = [] \<and>
   \<not> valid (validateTransaction empty_form) \<and> errors (validateTransaction empty_form) \<noteq> []"
proof -
  have "data_type lunch = Some ''expense''"
    "\<exists>n. data_amount lunch = Some n \<and> truthy_number (Some n) \<and> greater_than_zero n"
    "data_category_id lunch \<noteq> None \<and> truthy_number (data_category_id lunch)"
    "data_date lunch \<noteq> None \<and> truthy_string (data_date lunch)"
    by (simp_all add: lunch_def truthy_number_def truthy_string_def greater_than_zero_def)
  with validateTransaction_valid_iff [of lunch]
  have a: "valid (validateTransaction lunch) \<and> errors (validateTransaction lunch) = []"
    by blast
  have "\<not> (\<exists>n. data_amount empty_form = Some n \<and> truthy_number (Some n) \<and> greater_than_zero n)"
    by (simp add: empty_form_def truthy_number_def)
  with validateTransaction_valid_iff [of empty_form]
  have "\<not> valid (validateTransaction empty_form) \<and> errors (validateTransaction empty_form) \<noteq> []"
    by blast
  with a show ?thesis by blast
qed

lemma empty_form_errors:
  "errors (validateTransaction empty_form) = [amount_message, category_message, date_message]"
  by (simp add: validateTransaction_def empty_form_def truthy_number_def truthy_string_def le_zero_def)

section \<open>Date formatting\<close>

declare nat_to_string.simps [simp del]

lemma is_digit_digit_char: "d < 10 \<Longrightarrow> is_digit (digit_char d)"
proof -
  assume "d < 10"
  then have "d = 0 \<or> d = 1 \<or> d = 2 \<or> d = 3 \<or> d = 4 \<or> d = 5 \<or> d = 6 \<or> d = 7 \<or> d = 8 \<or> d = 9"
    by arith
  then show ?thesis
    by (elim disjE) (simp_all add: is_digit_def digit_char_def)
qed

lemma digits_nat_to_string: "list_all is_digit (nat_to_string n)"
proof (induction n rule: nat_to_string.induct)
  case (1 n)
  show ?case
  proof (cases "n < 10")
    case True
    then show ?thesis by (simp add: nat_to_string.simps [of n] is_digit_digit_char)
  next
    case False
    with 1 show ?thesis
      by (simp add: nat_to_string.simps [of n] is_digit_digit_char)
  qed
qed

lemma length_1: "n < 10 \<Longrightarrow> length (nat_to_string n) = 1"
  by (simp add: nat_to_string.simps [of n])

lemma length_2: "10 \<le> n \<Longrightarrow> n < 100 \<Longrightarrow> length (nat_to_string n) = 2"
  by (simp add: nat_to_string.simps [of n] length_1)

lemma length_3: "100 \<le> n \<Longrightarrow> n < 1000 \<Longrightarrow> length (nat_to_string n) = 3"
  by (simp add: nat_to_string.simps [of n] length_2)

lemma length_4: "1000 \<le> n \<Longrightarrow> n < 10000 \<Longrightarrow> length (nat_to_string n) = 4"
  by (simp add: nat_to_string.simps [of n] length_3)

lemma two_digits:
  assumes "n < 100"
  shows "length (padStart2 (nat_to_string n)) = 2 \<and> list_all is_digit (padStart2 (nat_to_string n))"
proof (cases "n < 10")
  case True
  then show ?thesis
    using digits_nat_to_string [of n]
    by (simp add: padStart2_def length_1 is_digit_def)
next
  case False
  with assms show ?thesis
    using digits_nat_to_string [of n] by (simp add: padStart2_def length_2)
qed

lemma year_month_day_valid:
  "year_month_day (Some d) =
     number_to_string (Some (fullYear d)) @ ''-'' @ padStart2 (nat_to_string (month d + 1)) @ ''-'' @
     padStart2 (nat_to_string (date d))"
  by (simp add: year_month_day_def number_to_string_def Let_def nat_add_distrib)

lemma is_yyyy_mm_dd_append:
  assumes "length y = 4" "list_all is_digit y" "length m = 2" "list_all is_digit m"
    "length d = 2" "list_all is_digit d"
  shows "is_yyyy_mm_dd (y @ ''-'' @ m @ ''-'' @ d)"
  using assms by (simp add: is_yyyy_mm_dd_def nth_append)

lemma year_month_day_format:
  assumes "valid_local_date d" "1000 \<le> fullYear d" "fullYear d \<le> 9999"
  shows "is_yyyy_mm_dd (year_month_day (Some d))"
proof -
  have y: "number_to_string (Some (fullYear d)) = nat_to_string (nat (fullYear d))"
    using assms by (simp add: number_to_string_def)
  have "length (nat_to_string (nat (fullYear d))) = 4"
    using assms by (intro length_4) auto
  moreover have "month d + 1 < 100" "date d < 100"
    using assms by (auto simp: valid_local_date_def)
  ultimately show ?thesis
    unfolding year_month_day_valid y
    by (intro is_yyyy_mm_dd_append) (simp_all add: two_digits digits_nat_to_string)
qed

text \<open>
  Claim C10, as the code has it. \<open>formatDate\<close> returns a string unchanged, so formatting its
  own result changes nothing. For a valid \<open>Date\<close> whose local year is between 1000 and 9999
  it returns the year, the month and the day of the local date as \<open>YYYY-MM-DD\<close>, with the
  month and the day padded to two digits. For anything else it returns what it returns for the
  current time.
\<close>
theorem formatDate_cases:
  "formatDate now (StringArg s) = s \<and>
   formatDate now' (StringArg (formatDate now arg)) = formatDate now arg \<and>
   (valid_local_date d \<and> 1000 \<le> fullYear d \<and> fullYear d \<le> 9999 \<longrightarrow>
      formatDate now (DateArg (Some d)) =
        nat_to_string (nat (fullYear d)) @ ''-'' @ padStart2 (nat_to_string (month d + 1)) @ ''-'' @
        padStart2 (nat_to_string (date d)) \<and>
      is_yyyy_mm_dd (formatDate now (DateArg (Some d)))) \<and>
   formatDate now OtherArg = formatDate now (DateArg (Some now)) \<and>
   (valid_local_date now \<and> 1000 \<le> fullYear now \<and> fullYear now \<le> 9999 \<longrightarrow>
      is_yyyy_mm_dd (formatDate now OtherArg))"
proof -
  have "formatDate now (StringArg s) = s"
    and "formatDate now' (StringArg (formatDate now arg)) = formatDate now arg"
    and "formatDate now OtherArg = formatDate now (DateArg (Some now))"
    by (simp_all add: formatDate_def)
  moreover have "valid_local_date d \<and> 1000 \<le> fullYear d \<and> fullYear d \<le> 9999 \<longrightarrow>
      formatDate now (DateArg (Some d)) =
        nat_to_string (nat (fullYear d)) @ ''-'' @ padStart2 (nat_to_string (month d + 1)) @ ''-'' @
        padStart2 (nat_to_string (date d)) \<and>
      is_yyyy_mm_dd (formatDate now (DateArg (Some d)))"
    by (simp add: formatDate_def year_month_day_format)
       (simp add: year_month_day_valid number_to_string_def)
  moreover have "valid_local_date now \<and> 1000 \<le> fullYear now \<and> fullYear now \<le> 9999 \<longrightarrow>
      is_yyyy_mm_dd (formatDate now OtherArg)"
    by (simp add: formatDate_def year_month_day_format)
  ultimately show ?thesis by blast
qed

lemma nat_to_string_2025: "nat_to_string 2025 = ''2025''"
  by (simp add: nat_to_string.simps [of 2025] nat_to_string.simps [of 202]
      nat_to_string.simps [of 20] nat_to_string.simps [of 2] digit_char_def)

text \<open>
  \<open>new Date(2025, 2, 8)\<close>, and the fallback on 1 January 2025.
\<close>
theorem formatDate_cases_witness:
  "valid_local_date march_8 \<and> 1000 \<le> fullYear march_8 \<and> fullYear march_8 \<le> 9999 \<and>
   formatDate new_year_2025 (DateArg (Some march_8)) = ''2025-03-08'' \<and>
   is_yyyy_mm_dd (formatDate new_year_2025 (DateArg (Some march_8))) \<and>
   valid_local_date new_year_2025 \<and> 1000 \<le> fullYear new_year_2025 \<and>
   fullYear new_year_2025 \<le> 9999 \<and>
   formatDate new_year_2025 OtherArg = ''2025-01-01'' \<and>
   is_yyyy_mm_dd (formatDate new_year_2025 OtherArg)"
proof -
  have h: "valid_local_date march_8 \<and> 1000 \<le> fullYear march_8 \<and> fullYear march_8 \<le> 9999"
    by (simp add: march_8_def valid_local_date_def)
  have h': "valid_local_date new_year_2025 \<and> 1000 \<le> fullYear new_year_2025 \<and>
            fullYear new_year_2025 \<le> 9999"
    by (simp add: new_year_2025_def valid_local_date_def)
  from formatDate_cases [of new_year_2025 _ _ _ march_8] h
  have a: "formatDate new_year_2025 (DateArg (Some march_8)) =
        nat_to_string (nat (fullYear march_8)) @ ''-'' @
        padStart2 (nat_to_string (month march_8 + 1)) @ ''-'' @
        padStart2 (nat_to_string (date march_8))"
    and b: "is_yyyy_mm_dd (formatDate new_year_2025 (DateArg (Some march_8)))"
    by blast+
  from formatDate_cases [of new_year_2025 _ _ _ new_year_2025] h'
  have c: "formatDate new_year_2025 OtherArg = formatDate new_year_2025 (DateArg (Some new_year_2025))"
    and d: "formatDate new_year_2025 (DateArg (Some new_year_2025)) =
        nat_to_string (nat (fullYear new_year_2025)) @ ''-'' @
        padStart2 (nat_to_string (month new_year_2025 + 1)) @ ''-'' @
        padStart2 (nat_to_string (date new_year_2025))"
    and e: "is_yyyy_mm_dd (formatDate new_year_2025 OtherArg)"
    by blast+
  have a': "formatDate new_year_2025 (DateArg (Some march_8)) = ''2025-03-08''"
    unfolding a
    by (simp add: march_8_def nat_to_string_2025 padStart2_def nat_to_string.simps [of 3]
        nat_to_string.simps [of 8] digit_char_def)
  have c': "formatDate new_year_2025 OtherArg = ''2025-01-01''"
    unfolding c d
    by (simp add: new_year_2025_def nat_to_string_2025 padStart2_def
        nat_to_string.simps [of "Suc 0"] digit_char_def)
  from h h' a' b c' e show ?thesis by blast
qed

text \<open>
  Claim C10 as stated has the result always a \<open>YYYY-MM-DD\<close> string or the original string.
  For an invalid \<open>Date\<close> the three getters are \<open>NaN\<close> and the result is \<open>'NaN-NaN-NaN'\<close>.
\<close>
theorem formatDate_invalid_counterexample:
  "\<not> stated_formatDate_result new_year_2025 (DateArg None)"
proof -
  have "formatDate new_year_2025 (DateArg None) = ''NaN-NaN-NaN''"
    by (simp add: formatDate_def year_month_day_def number_to_string_def padStart2_def)
  then show ?thesis
    by (simp add: stated_formatDate_result_def is_yyyy_mm_dd_def)
qed

end
